theory Spec2Isabelle
  imports Complex_Main "HOL-Library.Char_ord" "HOL-Library.List_Lexorder"
begin

section \<open>The HTTP endpoints as seen by the client\<close>

text \<open>
  Every list endpoint of \<^verbatim>\<open>polymarket_api.py\<close> is called through
  \<^verbatim>\<open>requests.get(url, params)\<close> followed by \<^verbatim>\<open>response.raise_for_status()\<close>
  and \<^verbatim>\<open>response.json()\<close>. A call therefore either raises an HTTP error carrying a
  status code or returns a list of records.

  The endpoint is external and may answer the same request differently at different
  times (throttling). It is modelled as a function of the number of requests the
  running fetch has already issued, the \<^verbatim>\<open>limit\<close> and the \<^verbatim>\<open>offset\<close> of the request.
  The filter parameters that a fetch passes unchanged to every page request
  (address, market, event id, sort order) are part of the choice of the endpoint.
\<close>

datatype http_error = HTTPError nat

type_synonym 'a response = "http_error + 'a list"

type_synonym 'a page_server = "nat \<Rightarrow> nat \<Rightarrow> nat \<Rightarrow> 'a response"

text \<open>
  What a fetch does besides returning: the page requests it issues (limit, offset),
  the pauses of \<^verbatim>\<open>time.sleep\<close> in seconds, and the pagination warning. The progress
  lines printed after each page are not traced.
\<close>

datatype event = Request nat nat | Sleep real | Warning nat

fun requested_offsets :: "event list \<Rightarrow> nat list" where
  "requested_offsets [] = []"
| "requested_offsets (Request lm off # es) = off # requested_offsets es"
| "requested_offsets (e # es) = requested_offsets es"

fun warnings :: "event list \<Rightarrow> nat list" where
  "warnings [] = []"
| "warnings (Warning off # es) = off # warnings es"
| "warnings (e # es) = warnings es"

text \<open>
  A mock endpoint with known data: it holds the records \<open>data\<close> and always answers a
  page request with the records from \<open>offset\<close> on, at most \<open>limit\<close> of them.
\<close>

definition mock_endpoint :: "'a list \<Rightarrow> 'a page_server" where
  "mock_endpoint data n lm off = Inr (take lm (drop off data))"

text \<open>
  An endpoint that throttles: it answers the first \<open>k\<close> requests with HTTP 429 and
  behaves as \<open>api\<close> from then on.
\<close>

definition throttled :: "nat \<Rightarrow> 'a page_server \<Rightarrow> 'a page_server" where
  "throttled k api n lm off = (if n < k then Inl (HTTPError 429) else api (n - k) lm off)"

section \<open>Trade pagination: \<^verbatim>\<open>PolymarketAPI.get_all_user_trades\<close>\<close>

text \<open>
  Python's \<^verbatim>\<open>if max_results and ...\<close> holds for a supplied value other than 0, and
  \<^verbatim>\<open>all_trades[:max_results]\<close> counts a negative bound from the end of the list.
\<close>

definition limit_reached :: "int option \<Rightarrow> nat \<Rightarrow> bool" where
  "limit_reached max_results k =
     (case max_results of None \<Rightarrow> False | Some m \<Rightarrow> m \<noteq> 0 \<and> m \<le> int k)"

definition py_prefix :: "'a list \<Rightarrow> int \<Rightarrow> 'a list" where
  "py_prefix xs m = (if m < 0 then take (nat (int (length xs) + m)) xs else take (nat m) xs)"

definition truncate_to :: "'a list \<Rightarrow> int option \<Rightarrow> 'a list" where
  "truncate_to xs max_results = (case max_results of None \<Rightarrow> xs | Some m \<Rightarrow> py_prefix xs m)"

text \<open>
  The body of the \<^verbatim>\<open>while True\<close> loop of \<^verbatim>\<open>get_all_user_trades\<close>, with its local
  variables \<^verbatim>\<open>offset\<close> and \<^verbatim>\<open>all_trades\<close> as arguments, \<^verbatim>\<open>limit = 500\<close>. An HTTP error
  of \<^verbatim>\<open>get_user_trades\<close> is not caught here, so it ends the fetch. The loop returns the
  trace together with the outcome; \<open>n\<close> counts the requests issued so far.

  \<^verbatim>\<open>get_user_trades\<close> raises \<^verbatim>\<open>ValueError\<close> before any request when only one of
  \<^verbatim>\<open>filter_type\<close> and \<^verbatim>\<open>filter_amount\<close> is given; the filters are taken to be given
  together or not at all.

  The offset grows by 500 with every turn and the loop leaves at the latest when
  \<open>offset + 500\<close> reaches 10000, so the loop always ends.
\<close>

function trades_loop ::
  "'a page_server \<Rightarrow> int option \<Rightarrow> real \<Rightarrow> nat \<Rightarrow> 'a list \<Rightarrow> nat \<Rightarrow> event list
     \<Rightarrow> event list \<times> (http_error + 'a list)" where
  "trades_loop api max_results rate_limit_delay offset all_trades n trace =
     (case api n 500 offset of
        Inl e \<Rightarrow> (trace @ [Request 500 offset], Inl e)
      | Inr batch \<Rightarrow>
          if length batch < 500 then
            (trace @ [Request 500 offset], Inr (all_trades @ batch))
          else if limit_reached max_results (length (all_trades @ batch)) then
            (trace @ [Request 500 offset],
             Inr (truncate_to (all_trades @ batch) max_results))
          else if 10000 \<le> offset + 500 then
            (trace @ [Request 500 offset, Warning (offset + 500)], Inr (all_trades @ batch))
          else
            trades_loop api max_results rate_limit_delay (offset + 500) (all_trades @ batch)
              (Suc n) (trace @ [Request 500 offset, Sleep rate_limit_delay]))"
  by pat_completeness auto
termination
  by (relation "measure (\<lambda>(api, m, d, offset, all_trades, n, trace). 10000 - offset)") auto

declare trades_loop.simps [simp del]

definition get_all_user_trades ::
  "'a page_server \<Rightarrow> int option \<Rightarrow> real \<Rightarrow> event list \<times> (http_error + 'a list)" where
  "get_all_user_trades api max_results rate_limit_delay =
     trades_loop api max_results rate_limit_delay 0 [] 0 []"

section \<open>Leaderboard pages: \<^verbatim>\<open>PolymarketAPI.scrape_leaderboard\<close>\<close>

text \<open>
  The leaderboard endpoint takes the time period, the ordering and the category with
  each request. The \<^verbatim>\<open>for i in range(num_batches)\<close> loop walks the batch indices;
  \<^verbatim>\<open>batch_size = 20\<close>, the offset of batch \<open>i\<close> is \<open>i * 20\<close>, and a batch shorter
  than 20 ends the walk. \<^verbatim>\<open>raise_for_status\<close> is not caught. The parameter
  \<^verbatim>\<open>total\<close> is written \<open>total_wanted\<close>.
\<close>

type_synonym 'u leaderboard_api = "string \<Rightarrow> string \<Rightarrow> string \<Rightarrow> 'u page_server"

fun leaderboard_batches ::
  "'u page_server \<Rightarrow> nat list \<Rightarrow> 'u list \<Rightarrow> event list
     \<Rightarrow> event list \<times> (http_error + 'u list)" where
  "leaderboard_batches api [] all_users trace = (trace, Inr all_users)"
| "leaderboard_batches api (i # rest) all_users trace =
     (case api i 20 (i * 20) of
        Inl e \<Rightarrow> (trace @ [Request 20 (i * 20)], Inl e)
      | Inr users \<Rightarrow>
          if length users < 20 then
            (trace @ [Request 20 (i * 20)], Inr (all_users @ users))
          else
            leaderboard_batches api rest (all_users @ users)
              (trace @ [Request 20 (i * 20), Sleep (3 / 10)]))"

definition scrape_leaderboard ::
  "'u leaderboard_api \<Rightarrow> string \<Rightarrow> string \<Rightarrow> int \<Rightarrow> string
     \<Rightarrow> event list \<times> (http_error + 'u list)" where
  "scrape_leaderboard api timePeriod orderBy total_wanted category =
     leaderboard_batches (api timePeriod orderBy category)
       [0..<nat ((total_wanted + 20 - 1) div 20)] [] []"

section \<open>Snapshot collector: \<^verbatim>\<open>PolymarketAPI.scrape_leaderboard_snapshot\<close>\<close>













section \<open>Position pagination\<close>

text \<open>
  A position as the data API returns it. \<open>api_timestamp\<close> is the closing time of a
  closed position in seconds (the loader does not read it for open positions);
  \<open>api_endDate\<close> is the resolution date as \<^verbatim>\<open>pd.to_datetime(..., errors='coerce')\<close>
  reads it, \<open>None\<close> for an empty, null or unreadable date.
\<close>

record api_position =
  api_asset :: string
  api_title :: string
  api_eventSlug :: string
  api_avgPrice :: real
  api_totalBought :: real
  api_realizedPnl :: real
  api_cashPnl :: real
  api_curPrice :: real
  api_timestamp :: int
  api_endDate :: "int option"

text \<open>
  \<^verbatim>\<open>get_all_user_positions\<close>: \<^verbatim>\<open>limit = 500\<close>. The loop has no bound of its own: it
  ends on an empty or short page or on an HTTP error other than 429, and after a 429
  it sleeps 5 seconds and runs the same request again. It is a partial function;
  \<open>None\<close> is a run that never returns.
\<close>

partial_function (option) positions_loop ::
  "'a page_server \<Rightarrow> real \<Rightarrow> nat \<Rightarrow> 'a list \<Rightarrow> nat \<Rightarrow> event list
     \<Rightarrow> (event list \<times> (http_error + 'a list)) option" where
  "positions_loop api delay offset all_positions n trace =
     (case api n 500 offset of
        Inl e \<Rightarrow>
          if e = HTTPError 429 then
            positions_loop api delay offset all_positions (Suc n)
              (trace @ [Request 500 offset, Sleep 5])
          else Some (trace @ [Request 500 offset], Inl e)
      | Inr batch \<Rightarrow>
          if batch = [] then Some (trace @ [Request 500 offset], Inr all_positions)
          else if length batch < 500 then
            Some (trace @ [Request 500 offset], Inr (all_positions @ batch))
          else
            positions_loop api delay (offset + 500) (all_positions @ batch) (Suc n)
              (trace @ [Request 500 offset, Sleep delay]))"

declare positions_loop.simps [code]

definition get_all_user_positions ::
  "'a page_server \<Rightarrow> real \<Rightarrow> (event list \<times> (http_error + 'a list)) option" where
  "get_all_user_positions api delay = positions_loop api delay 0 [] 0 []"

text \<open>
  \<^verbatim>\<open>get_all_closed_positions\<close>: \<^verbatim>\<open>limit = 25\<close>. A time bound counts as given when it
  is supplied and not 0 (Python truth value). With a bound given, five consecutive
  pages without a position inside the window end the walk, and the result is filtered
  to the window.
\<close>

definition given :: "int option \<Rightarrow> bool" where
  "given v = (case v of None \<Rightarrow> False | Some t \<Rightarrow> t \<noteq> 0)"

definition in_window :: "int option \<Rightarrow> int option \<Rightarrow> api_position \<Rightarrow> bool" where
  "in_window start_timestamp end_timestamp pos =
     ((case start_timestamp of None \<Rightarrow> True | Some s \<Rightarrow> s = 0 \<or> s \<le> api_timestamp pos) \<and>
      (case end_timestamp of None \<Rightarrow> True | Some e \<Rightarrow> e = 0 \<or> api_timestamp pos \<le> e))"

partial_function (option) closed_positions_loop ::
  "api_position page_server \<Rightarrow> int option \<Rightarrow> int option \<Rightarrow> real \<Rightarrow> nat
     \<Rightarrow> api_position list \<Rightarrow> nat \<Rightarrow> nat \<Rightarrow> event list
     \<Rightarrow> (event list \<times> (http_error + api_position list)) option" where
  "closed_positions_loop api start_timestamp end_timestamp delay offset all_positions
       consecutive_old_batches n trace =
     (case api n 25 offset of
        Inl e \<Rightarrow>
          if e = HTTPError 429 then
            closed_positions_loop api start_timestamp end_timestamp delay offset all_positions
              consecutive_old_batches (Suc n) (trace @ [Request 25 offset, Sleep 5])
          else Some (trace @ [Request 25 offset], Inl e)
      | Inr batch \<Rightarrow>
          if batch = [] then Some (trace @ [Request 25 offset], Inr all_positions)
          else if (given start_timestamp \<or> given end_timestamp)
                  \<and> \<not> list_ex (in_window start_timestamp end_timestamp) batch
                  \<and> 5 \<le> consecutive_old_batches + 1 then
            Some (trace @ [Request 25 offset], Inr (all_positions @ batch))
          else if length batch < 25 then
            Some (trace @ [Request 25 offset], Inr (all_positions @ batch))
          else
            closed_positions_loop api start_timestamp end_timestamp delay (offset + 25)
              (all_positions @ batch)
              (if given start_timestamp \<or> given end_timestamp then
                 (if list_ex (in_window start_timestamp end_timestamp) batch then 0
                  else consecutive_old_batches + 1)
               else consecutive_old_batches)
              (Suc n) (trace @ [Request 25 offset, Sleep delay]))"

declare closed_positions_loop.simps [code]

definition get_all_closed_positions ::
  "api_position page_server \<Rightarrow> int option \<Rightarrow> int option \<Rightarrow> real
     \<Rightarrow> (event list \<times> (http_error + api_position list)) option" where
  "get_all_closed_positions api start_timestamp end_timestamp delay =
     (case closed_positions_loop api start_timestamp end_timestamp delay 0 [] 0 0 [] of
        None \<Rightarrow> None
      | Some (trace, Inl e) \<Rightarrow> Some (trace, Inl e)
      | Some (trace, Inr all_positions) \<Rightarrow>
          if given start_timestamp \<or> given end_timestamp then
            Some (trace, Inr (filter (in_window start_timestamp end_timestamp) all_positions))
          else Some (trace, Inr all_positions))"

section \<open>The position table: \<^verbatim>\<open>PortfolioAnalyzer.load_positions\<close>\<close>

text \<open>
  A row of the merged table \<^verbatim>\<open>self.df\<close>. Times are seconds since the epoch; amounts
  are exact numbers (the rounding of binary floating point is not modelled).
\<close>

record position =
  asset :: string
  title :: string
  eventSlug :: string
  avgPrice :: real
  totalBought :: real
  realizedPnl :: real
  curPrice :: real
  "value" :: real
  closed :: bool
  timestamp :: int
  endDate :: "int option"

text \<open>\<^verbatim>\<open>pd.Timestamp('2099-12-31')\<close> in seconds since the epoch.\<close>

definition far_future :: int where
  "far_future = 4102358400"

definition process_closed :: "api_position \<Rightarrow> position" where
  "process_closed raw =
     \<lparr> asset = api_asset raw, title = api_title raw, eventSlug = api_eventSlug raw,
       avgPrice = api_avgPrice raw, totalBought = api_totalBought raw,
       realizedPnl = api_realizedPnl raw, curPrice = api_curPrice raw,
       value = api_avgPrice raw * api_totalBought raw, closed = True,
       timestamp = api_timestamp raw, endDate = api_endDate raw \<rparr>"

text \<open>
  An open position takes \<^verbatim>\<open>cashPnl\<close> as its \<^verbatim>\<open>realizedPnl\<close> and its resolution date
  as its timestamp; a missing date becomes the far future date in both columns.
\<close>

definition process_open :: "api_position \<Rightarrow> position" where
  "process_open raw =
     \<lparr> asset = api_asset raw, title = api_title raw, eventSlug = api_eventSlug raw,
       avgPrice = api_avgPrice raw, totalBought = api_totalBought raw,
       realizedPnl = api_cashPnl raw, curPrice = api_curPrice raw,
       value = api_avgPrice raw * api_totalBought raw, closed = False,
       timestamp = (case api_endDate raw of None \<Rightarrow> far_future | Some d \<Rightarrow> d),
       endDate = Some (case api_endDate raw of None \<Rightarrow> far_future | Some d \<Rightarrow> d) \<rparr>"

text \<open>
  \<^verbatim>\<open>sort_values(by='timestamp', ascending=False)\<close>. Among rows of equal timestamp the
  order pandas leaves is not fixed by its default sort; the model keeps their order.
\<close>

definition sort_newest_first :: "position list \<Rightarrow> position list" where
  "sort_newest_first df = sort_key (\<lambda>p. - timestamp p) df"

text \<open>The client-side filter of lines 117 to 122, on \<^verbatim>\<open>self.df\<close>.\<close>

definition filter_positions :: "int option \<Rightarrow> int option \<Rightarrow> position list \<Rightarrow> position list" where
  "filter_positions start_date end_date df =
     (if (start_date \<noteq> None \<or> end_date \<noteq> None) \<and> 0 < length df then
        (let df1 = (case start_date of None \<Rightarrow> df
                    | Some s \<Rightarrow> filter (\<lambda>p. s \<le> timestamp p) df)
         in (case end_date of None \<Rightarrow> df1
             | Some e \<Rightarrow> filter (\<lambda>p. timestamp p \<le> e) df1))
      else df)"

text \<open>
  \<^verbatim>\<open>load_positions\<close> after its two fetches: \<open>closed_positions\<close> and \<open>open_positions\<close>
  are what \<^verbatim>\<open>get_all_closed_positions\<close> and \<^verbatim>\<open>get_all_user_positions\<close> returned.
  When both are empty the concatenated table has no \<^verbatim>\<open>timestamp\<close> column and
  \<^verbatim>\<open>sort_values\<close> raises.
\<close>

datatype py_error = KeyError | IndexError

definition load_positions ::
  "api_position list \<Rightarrow> api_position list \<Rightarrow> int option \<Rightarrow> int option
     \<Rightarrow> py_error + position list" where
  "load_positions closed_positions open_positions start_date end_date =
     (if closed_positions = [] \<and> open_positions = [] then Inl KeyError
      else
        (let df_closed = sort_newest_first (map process_closed closed_positions);
             df_open = sort_newest_first (map process_open open_positions);
             df = sort_newest_first (df_closed @ df_open)
         in Inr (filter_positions start_date end_date df)))"

section \<open>The trade table: \<^verbatim>\<open>PortfolioAnalyzer.load_trades\<close>\<close>

record trade =
  t_asset :: string
  t_title :: string
  t_eventSlug :: string
  t_side :: string
  t_size :: real
  t_price :: real
  t_timestamp :: int
  t_value :: real

text \<open>The date filter of lines 238 to 247, on \<^verbatim>\<open>self.all_trades_df\<close>.\<close>

definition filter_trades :: "int option \<Rightarrow> int option \<Rightarrow> trade list \<Rightarrow> trade list" where
  "filter_trades start_date end_date all_trades_df =
     (if start_date \<noteq> None \<or> end_date \<noteq> None then
        (let df1 = (case start_date of None \<Rightarrow> all_trades_df
                    | Some s \<Rightarrow> filter (\<lambda>t. s \<le> t_timestamp t) all_trades_df)
         in (case end_date of None \<Rightarrow> df1
             | Some e \<Rightarrow> filter (\<lambda>t. t_timestamp t \<le> e) df1))
      else all_trades_df)"

section \<open>Deduplication: \<^verbatim>\<open>PortfolioAnalyzer.process_trades\<close>\<close>

text \<open>
  \<^verbatim>\<open>self.df.groupby('asset').agg({...}).reset_index(drop=True)\<close>: one row per asset id,
  the groups in the order of their keys, the rows of a group in table order.
\<close>

record aggregated_position =
  g_title :: string
  g_eventSlug :: string
  g_asset :: string
  g_realizedPnl :: real
  g_closed :: bool
  g_timestamp :: int

definition agg :: "position \<Rightarrow> position list \<Rightarrow> aggregated_position" where
  "agg p ps =
     \<lparr> g_title = title p, g_eventSlug = eventSlug p, g_asset = asset p,
       g_realizedPnl = sum_list (map realizedPnl (p # ps)),
       g_closed = list_all closed (p # ps),
       g_timestamp = fold max (map timestamp ps) (timestamp p) \<rparr>"

definition group_of :: "position list \<Rightarrow> string \<Rightarrow> position list" where
  "group_of df k = filter (\<lambda>p. asset p = k) df"

definition aggregate_positions :: "position list \<Rightarrow> aggregated_position list" where
  "aggregate_positions df =
     concat (map (\<lambda>k. case group_of df k of [] \<Rightarrow> [] | p # ps \<Rightarrow> [agg p ps])
               (sort (remdups (map asset df))))"

text \<open>
  The position-specific trade tables \<^verbatim>\<open>self.trade_dfs\<close>, keyed by the number \<open>i\<close> of
  \<^verbatim>\<open>trade{i}\<close>; an aggregated position without trades gets no entry. The method
  returns early, leaving the tables as they were, when there are no positions or no
  trades.
\<close>

definition process_trades ::
  "position list \<Rightarrow> trade list \<Rightarrow> (nat \<times> trade list) list \<Rightarrow> (nat \<times> trade list) list" where
  "process_trades df all_trades_df trade_dfs =
     (if df = [] \<or> all_trades_df = [] then trade_dfs
      else
        filter (\<lambda>(i, position_trades). position_trades \<noteq> [])
          (map (\<lambda>(i, row). (i, filter (\<lambda>t. t_asset t = g_asset row) all_trades_df))
             (zip [1..<Suc (length (aggregate_positions df))] (aggregate_positions df))))"

section \<open>Summaries: \<^verbatim>\<open>create_summary\<close> and \<^verbatim>\<open>portfolio_summary\<close>\<close>

text \<open>
  A quotient is \<open>None\<close> when its divisor is zero: the division that would give NaN, an
  infinity or an error in Python.
\<close>

definition checked_div :: "real \<Rightarrow> real \<Rightarrow> real option" where
  "checked_div a b = (if b = 0 then None else Some (a / b))"

definition mean :: "real list \<Rightarrow> real option" where
  "mean xs = checked_div (sum_list xs) (real (length xs))"

record summary_row =
  m_position :: nat
  m_title :: string
  m_eventSlug :: string
  first_timestamp :: int
  m_totalBought :: real
  m_realizedPnl :: real
  total_invested :: real
  total_sells :: real
  net_invested :: real
  roi_pct :: "real option"
  num_trades :: nat
  has_sells :: bool
  m_closed :: bool
  m_asset :: string

text \<open>Lines 388 to 391: \<^verbatim>\<open>(api_pnl / total_invested * 100) if total_invested > 0 else 0\<close>.\<close>

definition roi_total_capital :: "real \<Rightarrow> real \<Rightarrow> real option" where
  "roi_total_capital api_pnl invested =
     (if 0 < invested then map_option (\<lambda>q. q * 100) (checked_div api_pnl invested)
      else Some 0)"

text \<open>
  The summary of one entry of \<^verbatim>\<open>self.trade_dfs\<close> with at least one trade. The position
  data is the first row of \<^verbatim>\<open>self.df\<close> with the asset of the first trade;
  \<^verbatim>\<open>.iloc[0]\<close> raises when there is none.
\<close>

fun summarise :: "position list \<Rightarrow> nat \<Rightarrow> trade list \<Rightarrow> py_error + summary_row" where
  "summarise df key [] = Inl IndexError"
| "summarise df key (t # ts) =
     (case filter (\<lambda>p. asset p = t_asset t) df of
        [] \<Rightarrow> Inl IndexError
      | position_data # others \<Rightarrow>
          (let invested = sum_list (map t_value (filter (\<lambda>x. t_side x = ''BUY'') (t # ts)));
               sells = sum_list (map t_value (filter (\<lambda>x. t_side x = ''SELL'') (t # ts)))
           in Inr \<lparr> m_position = key, m_title = t_title t, m_eventSlug = t_eventSlug t,
                     first_timestamp = t_timestamp (last (t # ts)),
                     m_totalBought = totalBought position_data,
                     m_realizedPnl = realizedPnl position_data,
                     total_invested = invested, total_sells = sells,
                     net_invested = invested - sells,
                     roi_pct = roi_total_capital (realizedPnl position_data) invested,
                     num_trades = length (t # ts),
                     has_sells = list_ex (\<lambda>x. t_side x = ''SELL'') (t # ts),
                     m_closed = closed position_data, m_asset = t_asset t \<rparr>))"

fun summary_rows ::
  "position list \<Rightarrow> (nat \<times> trade list) list \<Rightarrow> py_error + summary_row list" where
  "summary_rows df [] = Inr []"
| "summary_rows df ((key, trades) # rest) =
     (if trades = [] then summary_rows df rest
      else
        (case summarise df key trades of
           Inl e \<Rightarrow> Inl e
         | Inr row \<Rightarrow>
             (case summary_rows df rest of Inl e \<Rightarrow> Inl e | Inr rows \<Rightarrow> Inr (row # rows))))"

definition create_summary ::
  "position list \<Rightarrow> (nat \<times> trade list) list \<Rightarrow> py_error + summary_row list" where
  "create_summary df trade_dfs = (if df = [] then Inr [] else summary_rows df trade_dfs)"

text \<open>
  The figures \<^verbatim>\<open>portfolio_summary\<close> computes before printing them (lines 462 to 482);
  \<open>None\<close> when it returns early for want of data.
\<close>

record portfolio =
  realized_pnl :: real
  unrealized_pnl :: real
  total_pnl :: real
  invested_total :: real
  overall_roi :: "real option"
  closed_count :: nat
  winning_count :: nat
  losing_count :: nat
  win_rate :: "real option"
  avg_win :: "real option"
  avg_loss :: "real option"
  profit_factor :: "real option"

definition profit_factor_of :: "real option \<Rightarrow> nat \<Rightarrow> real option \<Rightarrow> nat \<Rightarrow> real option" where
  "profit_factor_of a_win n_win a_loss n_loss =
     (if 0 < n_loss \<and> a_loss \<noteq> Some 0 then
        (case a_win of None \<Rightarrow> None
         | Some w \<Rightarrow>
             (case a_loss of None \<Rightarrow> None
              | Some l \<Rightarrow> map_option abs (checked_div (w * real n_win) (l * real n_loss))))
      else Some 0)"

definition portfolio_summary :: "position list \<Rightarrow> summary_row list \<Rightarrow> portfolio option" where
  "portfolio_summary df summary_df =
     (if df = [] \<or> summary_df = [] then None
      else
        (let tot_pnl = sum_list (map realizedPnl df);
             invested = sum_list (map total_invested summary_df);
             closed_positions = filter m_closed summary_df;
             winning = filter (\<lambda>r. 0 < m_realizedPnl r) closed_positions;
             losing = filter (\<lambda>r. m_realizedPnl r < 0) closed_positions;
             a_win = (if 0 < length winning then mean (map m_realizedPnl winning) else Some 0);
             a_loss = (if 0 < length losing then mean (map m_realizedPnl losing) else Some 0)
         in Some \<lparr> realized_pnl = sum_list (map realizedPnl (filter closed df)),
                    unrealized_pnl = sum_list (map realizedPnl (filter (\<lambda>p. \<not> closed p) df)),
                    total_pnl = tot_pnl,
                    invested_total = invested,
                    overall_roi =
                      (if 0 < invested then
                         map_option (\<lambda>q. q * 100) (checked_div tot_pnl invested)
                       else Some 0),
                    closed_count = length closed_positions,
                    winning_count = length winning,
                    losing_count = length losing,
                    win_rate =
                      (if 0 < length closed_positions then
                         map_option (\<lambda>q. q * 100)
                           (checked_div (real (length winning)) (real (length closed_positions)))
                       else Some 0),
                    avg_win = a_win,
                    avg_loss = a_loss,
                    profit_factor =
                      profit_factor_of a_win (length winning) a_loss (length losing) \<rparr>))"

section \<open>The specification's formulas\<close>

text \<open>
  These definitions follow the words of the specification, not the code; the theorems
  compare the code with them.

  What the paginated fetch returns according to the specification: the first
  \<open>min(total_available, max_results or \<infinity>)\<close> records.
\<close>

definition spec_paginated_result :: "'a list \<Rightarrow> int option \<Rightarrow> 'a list" where
  "spec_paginated_result data max_results =
     take (case max_results of None \<Rightarrow> length data | Some m \<Rightarrow> min (length data) (nat m)) data"

text \<open>
  The number of page requests according to the specification, for a number of records
  that is a multiple of the page size: the quotient rounded up.
\<close>

definition spec_request_count :: "nat \<Rightarrow> nat \<Rightarrow> nat" where
  "spec_request_count records page_size = (records + page_size - 1) div page_size"

section \<open>Notions for the snapshot collector\<close>








section \<open>Example data\<close>

definition example_position :: "string \<Rightarrow> real \<Rightarrow> bool \<Rightarrow> int \<Rightarrow> position" where
  "example_position a pnl c t =
     \<lparr> asset = a, title = ''Market '' @ a, eventSlug = ''market-'' @ a, avgPrice = 1 / 2,
       totalBought = 100, realizedPnl = pnl, curPrice = 1 / 2, value = 50, closed = c,
       timestamp = t, endDate = None \<rparr>"

definition example_trade :: "string \<Rightarrow> string \<Rightarrow> real \<Rightarrow> real \<Rightarrow> int \<Rightarrow> trade" where
  "example_trade a s sz pr t =
     \<lparr> t_asset = a, t_title = ''Market '' @ a, t_eventSlug = ''market-'' @ a, t_side = s,
       t_size = sz, t_price = pr, t_timestamp = t, t_value = sz * pr \<rparr>"

definition example_api_position :: "string \<Rightarrow> real \<Rightarrow> int \<Rightarrow> int option \<Rightarrow> api_position" where
  "example_api_position a pnl t d =
     \<lparr> api_asset = a, api_title = ''Market '' @ a, api_eventSlug = ''market-'' @ a,
       api_avgPrice = 1 / 2, api_totalBought = 100, api_realizedPnl = pnl, api_cashPnl = pnl,
       api_curPrice = 1 / 2, api_timestamp = t, api_endDate = d \<rparr>"



section \<open>Properties of the trade pagination\<close>

subsection \<open>One iteration of the loop\<close>

lemma trades_loop_error:
  "api n 500 offset = Inl e \<Longrightarrow>
   trades_loop api max_results d offset all_trades n trace = (trace @ [Request 500 offset], Inl e)"
  by (subst trades_loop.simps) simp

lemma trades_loop_short:
  "api n 500 offset = Inr batch \<Longrightarrow> length batch < 500 \<Longrightarrow>
   trades_loop api max_results d offset all_trades n trace
     = (trace @ [Request 500 offset], Inr (all_trades @ batch))"
  by (subst trades_loop.simps) simp

lemma trades_loop_limit:
  "api n 500 offset = Inr batch \<Longrightarrow> \<not> length batch < 500 \<Longrightarrow>
   limit_reached max_results (length (all_trades @ batch)) \<Longrightarrow>
   trades_loop api max_results d offset all_trades n trace
     = (trace @ [Request 500 offset], Inr (truncate_to (all_trades @ batch) max_results))"
  by (subst trades_loop.simps) simp

lemma trades_loop_cap:
  "api n 500 offset = Inr batch \<Longrightarrow> \<not> length batch < 500 \<Longrightarrow>
   \<not> limit_reached max_results (length (all_trades @ batch)) \<Longrightarrow> 10000 \<le> offset + 500 \<Longrightarrow>
   trades_loop api max_results d offset all_trades n trace
     = (trace @ [Request 500 offset, Warning (offset + 500)], Inr (all_trades @ batch))"
  by (subst trades_loop.simps) simp

lemma trades_loop_next:
  "api n 500 offset = Inr batch \<Longrightarrow> \<not> length batch < 500 \<Longrightarrow>
   \<not> limit_reached max_results (length (all_trades @ batch)) \<Longrightarrow> \<not> 10000 \<le> offset + 500 \<Longrightarrow>
   trades_loop api max_results d offset all_trades n trace
     = trades_loop api max_results d (offset + 500) (all_trades @ batch) (Suc n)
         (trace @ [Request 500 offset, Sleep d])"
  by (subst trades_loop.simps) simp

subsection \<open>Arithmetic of pages of 500\<close>

lemma ceil_step_int:
  assumes "(500 * k::int) < m"
  shows "500 * k + 500 \<le> 500 * ((m + 499) div 500)"
proof -
  have "500 * (k + 1) \<le> m + 499" using assms by (simp add: algebra_simps)
  then have "(500 * (k + 1)) div 500 \<le> (m + 499) div 500" by (rule zdiv_mono1) simp
  then have "k + 1 \<le> (m + 499) div 500" by simp
  then show ?thesis by (simp add: algebra_simps)
qed

lemma ceil_step: "500 dvd (offset::nat) \<Longrightarrow> int offset < m \<Longrightarrow> int offset + 500 \<le> 500 * ((m + 499) div 500)"
proof (elim dvdE)
  fix k assume "offset = 500 * k" "int offset < m"
  then show ?thesis using ceil_step_int[of "int k" m] by simp
qed

lemma dvd_step: "500 dvd (offset::nat) \<Longrightarrow> offset < 10000 \<Longrightarrow> offset + 500 \<le> 10000"
  by (elim dvdE) simp

subsection \<open>The loop against a mock endpoint with known data\<close>

text \<open>
  Loop invariant: at a page boundary below the cap, with everything before the offset
  already collected, and with the bound (when one is given) not yet reached, the loop
  returns the first \<open>min(N, m, 10000)\<close> records. The condition on the bound leaves out
  the case in which the data ends on a short page after the bound is passed.
\<close>

lemma trades_loop_mock_result:
  assumes "500 dvd offset" "offset < 10000" "offset \<le> length data"
    and "max_results = None \<or> (\<exists>m. max_results = Some m \<and> int offset < m
           \<and> (int (length data) \<le> m \<or> 500 * ((m + 499) div 500) \<le> int (length data)))"
    and "all_trades = take offset data"
  shows "snd (trades_loop (mock_endpoint data) max_results d offset all_trades n trace)
         = Inr (take (min 10000 (case max_results of None \<Rightarrow> length data | Some m \<Rightarrow> min (length data) (nat m))) data)"
  using assms
proof (induction "mock_endpoint data" max_results d offset all_trades n trace rule: trades_loop.induct)
  case (1 max_results d offset all_trades n trace)
  let ?batch = "take 500 (drop offset data)"
  let ?N = "length data"
  have api: "mock_endpoint data n 500 offset = Inr ?batch" by (simp add: mock_endpoint_def)
  have acc: "all_trades @ ?batch = take (offset + 500) data"
    using "1.prems" by (simp add: take_add)
  have off: "offset + 500 \<le> 10000" using "1.prems"(1,2) by (rule dvd_step)
  show ?case
  proof (cases "length ?batch < 500")
    case True
    then have short: "?N < offset + 500" by simp
    then have all: "take (offset + 500) data = data" by simp
    have "?N \<le> 10000" using short off by simp
    moreover have "\<And>m. max_results = Some m \<Longrightarrow> ?N \<le> nat m"
    proof -
      fix m assume m: "max_results = Some m"
      then have lt: "int offset < m" using "1.prems"(4) by simp
      from m "1.prems"(4)
      consider "int ?N \<le> m" | "500 * ((m + 499) div 500) \<le> int ?N" by auto
      then show "?N \<le> nat m"
      proof cases
        case 1 then show ?thesis by simp
      next
        case 2
        then show ?thesis using ceil_step[OF "1.prems"(1) lt] short by simp
      qed
    qed
    ultimately have "min 10000 (case max_results of None \<Rightarrow> ?N | Some m \<Rightarrow> min ?N (nat m)) \<ge> ?N"
      by (auto split: option.splits)
    then show ?thesis
      using trades_loop_short[where api="mock_endpoint data", OF api True] by (simp add: acc all)
  next
    case False
    then have full: "offset + 500 \<le> ?N" by simp
    show ?thesis
    proof (cases "limit_reached max_results (length (all_trades @ ?batch))")
      case True
      then obtain m where m: "max_results = Some m" "m \<noteq> 0" "m \<le> int (offset + 500)"
        using full by (auto simp: limit_reached_def acc split: option.splits)
      have mpos: "0 < m" using "1.prems"(4) m by auto
      have le: "nat m \<le> offset + 500" using m by linarith
      have "truncate_to (take (offset + 500) data) max_results = take (nat m) data"
        using m mpos le by (simp add: truncate_to_def py_prefix_def min_absorb1)
      moreover have "min 10000 (min ?N (nat m)) = nat m"
        using le full off by simp
      ultimately show ?thesis
        using trades_loop_limit[where api="mock_endpoint data", OF api False True] m by (simp add: acc)
    next
      case nr: False
      show ?thesis
      proof (cases "10000 \<le> offset + 500")
        case True
        then have o: "offset + 500 = 10000" using off by simp
        have "\<And>m. max_results = Some m \<Longrightarrow> 10000 < nat m"
          using nr "1.prems"(4) full o by (auto simp: limit_reached_def acc)
        then have "min 10000 (case max_results of None \<Rightarrow> ?N | Some m \<Rightarrow> min ?N (nat m)) = 10000"
          using full o by (auto split: option.splits)
        then show ?thesis
          using trades_loop_cap[where api="mock_endpoint data", OF api False nr True] by (simp add: acc o)
      next
        case c: False
        have step: "trades_loop (mock_endpoint data) max_results d offset all_trades n trace
              = trades_loop (mock_endpoint data) max_results d (offset + 500) (all_trades @ ?batch)
                  (Suc n) (trace @ [Request 500 offset, Sleep d])"
          by (rule trades_loop_next[where api="mock_endpoint data", OF api False nr c])
        have p4: "max_results = None \<or> (\<exists>m. max_results = Some m \<and> int (offset + 500) < m
           \<and> (int ?N \<le> m \<or> 500 * ((m + 499) div 500) \<le> int ?N))"
          using "1.prems"(4) nr full by (auto simp: limit_reached_def acc)
        have "snd (trades_loop (mock_endpoint data) max_results d (offset + 500) (all_trades @ ?batch)
                  (Suc n) (trace @ [Request 500 offset, Sleep d])) =
              Inr (take (min 10000 (case max_results of None \<Rightarrow> ?N | Some m \<Rightarrow> min ?N (nat m))) data)"
          apply (rule "1.hyps"[OF api])
          using False nr c "1.prems"(1) full p4 acc by auto
        then show ?thesis using step by simp
      qed
    qed
  qed
qed

lemma truncate_to_prefix: "\<exists>k. truncate_to (take j data) max_results = take k data"
  by (cases max_results) (auto simp: truncate_to_def py_prefix_def intro: exI[of _ j])

lemma trades_loop_mock_prefix:
  assumes "all_trades = take offset data"
  shows "\<exists>k. snd (trades_loop (mock_endpoint data) max_results d offset all_trades n trace)
           = Inr (take k data)"
  using assms
proof (induction "mock_endpoint data" max_results d offset all_trades n trace
       rule: trades_loop.induct)
  case (1 max_results d offset all_trades n trace)
  let ?batch = "take 500 (drop offset data)"
  have api: "mock_endpoint data n 500 offset = Inr ?batch" by (simp add: mock_endpoint_def)
  have acc: "all_trades @ ?batch = take (offset + 500) data"
    using "1.prems" by (simp add: take_add)
  consider (short) "length ?batch < 500"
    | (limit) "\<not> length ?batch < 500" "limit_reached max_results (length (all_trades @ ?batch))"
    | (cap) "\<not> length ?batch < 500" "\<not> limit_reached max_results (length (all_trades @ ?batch))"
        "10000 \<le> offset + 500"
    | (more) "\<not> length ?batch < 500" "\<not> limit_reached max_results (length (all_trades @ ?batch))"
        "\<not> 10000 \<le> offset + 500"
    by blast
  then show ?case
  proof cases
    case short
    show ?thesis
      using trades_loop_short[where api="mock_endpoint data", OF api short] acc by auto
  next
    case limit
    show ?thesis
      using trades_loop_limit[where api="mock_endpoint data", OF api limit] acc
        truncate_to_prefix[of "offset + 500" data max_results] by auto
  next
    case cap
    show ?thesis
      using trades_loop_cap[where api="mock_endpoint data", OF api cap] acc by auto
  next
    case more
    have "\<exists>k. snd (trades_loop (mock_endpoint data) max_results d (offset + 500)
             (all_trades @ ?batch) (Suc n) (trace @ [Request 500 offset, Sleep d])) = Inr (take k data)"
      using "1.hyps"[OF api more acc] .
    then show ?thesis
      using trades_loop_next[where api="mock_endpoint data", OF api more] by simp
  qed
qed

lemma requested_offsets_append:
  "requested_offsets (xs @ ys) = requested_offsets xs @ requested_offsets ys"
  by (induction xs rule: requested_offsets.induct) auto

lemma warnings_append: "warnings (xs @ ys) = warnings xs @ warnings ys"
  by (induction xs rule: warnings.induct) auto

lemma limit_reached_None: "\<not> limit_reached None k"
  by (simp add: limit_reached_def)

lemma trades_loop_mock_requests:
  assumes "offset = 500 * k" "k < 20" "offset \<le> length data"
  shows "requested_offsets (fst (trades_loop (mock_endpoint data) None d offset all_trades n trace))
         = requested_offsets trace @ map (\<lambda>i. 500 * i) [k..<min 20 (length data div 500 + 1)]"
  using assms
proof (induction "mock_endpoint data" "None :: int option" d offset all_trades n trace
       arbitrary: k rule: trades_loop.induct)
  case (1 d offset all_trades n trace)
  let ?batch = "take 500 (drop offset data)"
  let ?N = "length data"
  have api: "mock_endpoint data n 500 offset = Inr ?batch" by (simp add: mock_endpoint_def)
  note nl = limit_reached_None
  show ?case
  proof (cases "length ?batch < 500")
    case True
    then have "?N < 500 * k + 500" using "1.prems" by simp
    then have "?N div 500 = k" using "1.prems" by (intro div_nat_eqI) simp_all
    then have "[k..<min 20 (?N div 500 + 1)] = [k]" using "1.prems" by simp
    then show ?thesis
      using trades_loop_short[where api="mock_endpoint data", OF api True] "1.prems"
      by (simp add: requested_offsets_append)
  next
    case False
    then have full: "500 * (k + 1) \<le> ?N" using "1.prems" by simp
    then have "(500 * (k + 1)) div 500 \<le> ?N div 500" by (rule div_le_mono)
    then have kN: "k + 1 \<le> ?N div 500" by simp
    show ?thesis
    proof (cases "10000 \<le> offset + 500")
      case True
      then have "k = 19" using "1.prems" by simp
      then have "[k..<min 20 (?N div 500 + 1)] = [k]" using kN by simp
      then show ?thesis
        using trades_loop_cap[where api="mock_endpoint data", OF api False nl True] "1.prems"
        by (simp add: requested_offsets_append)
    next
      case c: False
      then have k: "k + 1 < 20" using "1.prems" by simp
      have "requested_offsets (fst (trades_loop (mock_endpoint data) None d (offset + 500)
              (all_trades @ ?batch) (Suc n) (trace @ [Request 500 offset, Sleep d])))
            = requested_offsets (trace @ [Request 500 offset, Sleep d])
              @ map (\<lambda>i. 500 * i) [k + 1..<min 20 (?N div 500 + 1)]"
        using "1.prems" k full by (intro "1.hyps"[OF api False nl c]) simp_all
      moreover have "[k..<min 20 (?N div 500 + 1)] = k # [k + 1..<min 20 (?N div 500 + 1)]"
        using k kN by (simp add: upt_conv_Cons)
      ultimately show ?thesis
        using trades_loop_next[where api="mock_endpoint data", OF api False nl c] "1.prems"
        by (simp add: requested_offsets_append)
    qed
  qed
qed

lemma leaderboard_batches_mock_requests:
  assumes "20 * k \<le> length data"
  shows "requested_offsets (fst (leaderboard_batches (mock_endpoint data) [k..<K] all_users trace))
         = requested_offsets trace @ map (\<lambda>i. 20 * i) [k..<min K (length data div 20 + 1)]"
  using assms
proof (induction "K - k" arbitrary: k all_users trace)
  case 0
  then show ?case by simp
next
  case (Suc j)
  let ?N = "length data"
  let ?users = "take 20 (drop (k * 20) data)"
  from Suc.hyps(2) have kK: "k < K" by simp
  then have upt: "[k..<K] = k # [Suc k..<K]" by (simp add: upt_conv_Cons)
  have api: "mock_endpoint data k 20 (k * 20) = Inr ?users" by (simp add: mock_endpoint_def)
  show ?case
  proof (cases "length ?users < 20")
    case True
    then have "?N < 20 * k + 20" using Suc.prems by (simp add: mult.commute)
    then have "?N div 20 = k" using Suc.prems by (intro div_nat_eqI) simp_all
    then have "[k..<min K (?N div 20 + 1)] = [k]" using kK by simp
    then show ?thesis
      using True by (simp add: upt api requested_offsets_append mult.commute)
  next
    case False
    then have full: "20 * (k + 1) \<le> ?N" by (simp add: mult.commute)
    then have "(20 * (k + 1)) div 20 \<le> ?N div 20" by (rule div_le_mono)
    then have kN: "k + 1 \<le> ?N div 20" by simp
    have "requested_offsets (fst (leaderboard_batches (mock_endpoint data) [Suc k..<K]
            (all_users @ ?users) (trace @ [Request 20 (k * 20), Sleep (3 / 10)])))
          = requested_offsets (trace @ [Request 20 (k * 20), Sleep (3 / 10)])
            @ map (\<lambda>i. 20 * i) [Suc k..<min K (?N div 20 + 1)]"
      using Suc.hyps(2) full by (intro Suc.hyps(1)) simp_all
    moreover have "[k..<min K (?N div 20 + 1)] = k # [Suc k..<min K (?N div 20 + 1)]"
      using kK kN by (simp add: upt_conv_Cons)
    ultimately show ?thesis
      using False by (simp add: upt api requested_offsets_append mult.commute)
  qed
qed

text \<open>
  C1, as amended. Against an endpoint that serves \<open>N\<close> known records in pages of 500,
  \<^verbatim>\<open>get_all_user_trades\<close> returns a prefix of the records, in server order, without
  duplicates or gaps. Without \<^verbatim>\<open>max_results\<close> it returns the first \<open>min(N, 10000)\<close>;
  with a positive \<^verbatim>\<open>max_results = m\<close> it returns the first \<open>min(N, m, 10000)\<close>, provided
  \<open>N \<le> m\<close> or \<open>N\<close> is at least \<open>m\<close> rounded up to a multiple of 500 (the page on which
  the running total reaches \<open>m\<close> is a full page).
\<close>

theorem get_all_user_trades_mock_endpoint:
  "(\<exists>k. snd (get_all_user_trades (mock_endpoint data) max_results d) = Inr (take k data)) \<and>
   (max_results = None \<or>
    (\<exists>m. max_results = Some m \<and> 0 < m \<and>
         (int (length data) \<le> m \<or> 500 * ((m + 499) div 500) \<le> int (length data)))
    \<longrightarrow> snd (get_all_user_trades (mock_endpoint data) max_results d)
        = Inr (take (min 10000 (case max_results of None \<Rightarrow> length data
                                | Some m \<Rightarrow> min (length data) (nat m))) data))"
proof (intro conjI impI)
  show "\<exists>k. snd (get_all_user_trades (mock_endpoint data) max_results d) = Inr (take k data)"
    unfolding get_all_user_trades_def by (rule trades_loop_mock_prefix) simp
next
  assume "max_results = None \<or>
    (\<exists>m. max_results = Some m \<and> 0 < m \<and>
         (int (length data) \<le> m \<or> 500 * ((m + 499) div 500) \<le> int (length data)))"
  then have "max_results = None \<or>
    (\<exists>m. max_results = Some m \<and> int 0 < m \<and>
         (int (length data) \<le> m \<or> 500 * ((m + 499) div 500) \<le> int (length data)))"
    by simp
  then show "snd (get_all_user_trades (mock_endpoint data) max_results d)
        = Inr (take (min 10000 (case max_results of None \<Rightarrow> length data
                                | Some m \<Rightarrow> min (length data) (nat m))) data)"
    unfolding get_all_user_trades_def by (intro trades_loop_mock_result) simp_all
qed

theorem get_all_user_trades_mock_endpoint_witness:
  "snd (get_all_user_trades (mock_endpoint [0..<1000]) (Some 700) (1 / 10)) = Inr [0..<700]"
  using get_all_user_trades_mock_endpoint [of "[0..<1000]" "Some 700" "1 / 10"] by simp

text \<open>
  C1 as stated fails at the pagination limit: of 10500 records on the server and no
  \<^verbatim>\<open>max_results\<close>, the fetch returns the first 10000.
\<close>

theorem get_all_user_trades_cap_counterexample:
  "snd (get_all_user_trades (mock_endpoint [0..<10500]) None (1 / 10))
     \<noteq> Inr (spec_paginated_result [0..<10500] None)"
proof
  assume a: "snd (get_all_user_trades (mock_endpoint [0..<10500]) None (1 / 10))
               = Inr (spec_paginated_result [0..<10500] None)"
  have "snd (get_all_user_trades (mock_endpoint [0..<10500]) None (1 / 10))
          = Inr (take (min 10000 (length [0..<10500])) [0..<10500])"
    unfolding get_all_user_trades_def
    using trades_loop_mock_result [of 0 "[0..<10500]" None "[]" "1 / 10" 0 "[]"] by simp
  with a have "take (min 10000 (length [0..<10500])) [0..<10500]
                 = spec_paginated_result [0..<10500] None"
    by simp
  then have "length (take (min 10000 (length [0..<10500])) [0..<10500])
               = length (spec_paginated_result [0..<10500] None)"
    by (rule arg_cong)
  then show False by (simp add: spec_paginated_result_def)
qed

text \<open>
  The data ending on a short page after the bound is passed: three records on the
  server, \<^verbatim>\<open>max_results = 2\<close>, and all three come back, since the test for a short
  page leaves the loop before the truncation.
\<close>

lemma get_all_user_trades_short_page_over_bound:
  "get_all_user_trades (mock_endpoint [1, 2, 3 :: nat]) (Some 2) d
     = ([Request 500 0], Inr [1, 2, 3])"
  unfolding get_all_user_trades_def
  using trades_loop_short [of "mock_endpoint [1, 2, 3 :: nat]" 0 0 "[1, 2, 3]" "Some 2" d "[]" "[]"]
  by (simp add: mock_endpoint_def)

section \<open>The number of page requests\<close>

lemma ceiling_not_multiple:
  assumes "\<not> 500 dvd (N::nat)"
  shows "N div 500 + 1 = (N + 499) div 500"
proof -
  have m: "0 < N mod 500" "N mod 500 < 500" using assms by (auto simp: dvd_eq_mod_eq_0)
  have "(N + 499) div 500 = N div 500 + 499 div 500 + (N mod 500 + 499 mod 500) div 500"
    by (rule div_add1_eq)
  moreover have "(N mod 500 + 499) div 500 = 1"
    using m by (intro div_nat_eqI) simp_all
  ultimately show ?thesis by simp
qed

lemma ceiling_multiple:
  assumes "500 dvd (N::nat)"
  shows "N div 500 = (N + 499) div 500"
proof -
  from assms obtain k where "N = 500 * k" by (elim dvdE)
  then show ?thesis by simp
qed

text \<open>
  C6, as amended. Against an endpoint that serves \<open>N\<close> known records, and without
  \<^verbatim>\<open>max_results\<close>, \<^verbatim>\<open>get_all_user_trades\<close> requests the offsets 0, 500, 1000 and so
  on and issues \<open>min(20, N div 500 + 1)\<close> requests. \<^verbatim>\<open>scrape_leaderboard\<close>, asked for
  \<open>total\<close> entries, requests the offsets 0, 20, 40 and so on and issues
  \<open>min(\<lceil>total/20\<rceil>, N div 20 + 1)\<close> requests. So a short final page ends the walk
  at the rounded-up quotient, and a number of records that is a multiple of the page
  size costs one request more, for the empty page that shows the end.
\<close>

theorem page_requests_mock_endpoint:
  "requested_offsets (fst (get_all_user_trades (mock_endpoint data) None d))
     = map (\<lambda>i. 500 * i) [0..<min 20 (length data div 500 + 1)] \<and>
   requested_offsets (fst (scrape_leaderboard (\<lambda>timePeriod orderBy category. mock_endpoint users)
       timePeriod orderBy total_wanted category))
     = map (\<lambda>i. 20 * i) [0..<min (nat ((total_wanted + 19) div 20)) (length users div 20 + 1)]"
proof
  show "requested_offsets (fst (get_all_user_trades (mock_endpoint data) None d))
     = map (\<lambda>i. 500 * i) [0..<min 20 (length data div 500 + 1)]"
    unfolding get_all_user_trades_def
    using trades_loop_mock_requests [of 0 0 data d "[]" 0 "[]"] by simp
next
  show "requested_offsets (fst (scrape_leaderboard (\<lambda>timePeriod orderBy category. mock_endpoint users)
       timePeriod orderBy total_wanted category))
     = map (\<lambda>i. 20 * i) [0..<min (nat ((total_wanted + 19) div 20)) (length users div 20 + 1)]"
    unfolding scrape_leaderboard_def
    using leaderboard_batches_mock_requests [of 0 users "nat ((total_wanted + 19) div 20)" "[]" "[]"]
    by (simp add: add.commute)
qed

text \<open>
  C6 as stated fails for a multiple of the page size: 500 records take two requests,
  not one.
\<close>

theorem page_requests_counterexample:
  "length (requested_offsets (fst (get_all_user_trades (mock_endpoint [0..<500]) None (1 / 10))))
     \<noteq> spec_request_count 500 500"
proof -
  have "requested_offsets (fst (get_all_user_trades (mock_endpoint [0..<500]) None (1 / 10)))
          = map (\<lambda>i. 500 * i) [0..<min 20 (length [0..<500] div 500 + 1)]"
    unfolding get_all_user_trades_def
    using trades_loop_mock_requests [of 0 0 "[0..<500]" "1 / 10" "[]" 0 "[]"] by simp
  then have "length (requested_offsets
               (fst (get_all_user_trades (mock_endpoint [0..<500]) None (1 / 10)))) = 2"
    by simp
  then show ?thesis by (simp add: spec_request_count_def)
qed

text \<open>The two cases of the trade pagination below the pagination limit.\<close>

lemma trades_requests_short_final_page:
  assumes "\<not> 500 dvd length data" "length data < 10000"
  shows "length (requested_offsets (fst (get_all_user_trades (mock_endpoint data) None d)))
           = spec_request_count (length data) 500"
proof -
  have "length data div 500 < 20" using assms(2) by (simp add: div_less_iff_less_mult)
  then show ?thesis
    unfolding get_all_user_trades_def spec_request_count_def
    using trades_loop_mock_requests [of 0 0 data d "[]" 0 "[]"] ceiling_not_multiple [OF assms(1)]
    by simp
qed

lemma trades_requests_full_final_page:
  assumes "500 dvd length data" "length data < 10000"
  shows "length (requested_offsets (fst (get_all_user_trades (mock_endpoint data) None d)))
           = spec_request_count (length data) 500 + 1"
proof -
  have "length data div 500 < 20" using assms(2) by (simp add: div_less_iff_less_mult)
  then show ?thesis
    unfolding get_all_user_trades_def spec_request_count_def
    using trades_loop_mock_requests [of 0 0 data d "[]" 0 "[]"] ceiling_multiple [OF assms(1)]
    by simp
qed

section \<open>The time window\<close>

lemma filter_positions_set:
  "set (filter_positions start_date end_date df) \<subseteq> set df"
  by (auto simp: filter_positions_def Let_def split: option.splits)

lemma filter_positions_end:
  "df \<noteq> [] \<Longrightarrow> p \<in> set (filter_positions start_date (Some e) df) \<Longrightarrow> timestamp p \<le> e"
  by (auto simp: filter_positions_def Let_def split: option.splits)

lemma filter_positions_idem:
  "filter_positions start_date end_date (filter_positions start_date end_date df)
     = filter_positions start_date end_date df"
  by (cases start_date; cases end_date) (auto simp: filter_positions_def Let_def intro: filter_cong)

lemma filter_trades_idem:
  "filter_trades start_date end_date (filter_trades start_date end_date all_trades_df)
     = filter_trades start_date end_date all_trades_df"
  by (cases start_date; cases end_date) (auto simp: filter_trades_def Let_def intro: filter_cong)

text \<open>
  C8. The time-window filter is idempotent: filtering a position table, or a trade
  table, that has already been filtered to the same window returns the same table.
\<close>

theorem window_filter_idempotent:
  "filter_positions start_date end_date (filter_positions start_date end_date df)
     = filter_positions start_date end_date df \<and>
   filter_trades start_date end_date (filter_trades start_date end_date all_trades_df)
     = filter_trades start_date end_date all_trades_df"
  by (simp add: filter_positions_idem filter_trades_idem)

theorem window_filter_idempotent_witness:
  "filter_positions (Some 5) (Some 10)
     (filter_positions (Some 5) (Some 10)
        [example_position ''A'' 50 True 20, example_position ''A'' (- 20) True 7,
         example_position ''B'' 5 False 1])
     = [example_position ''A'' (- 20) True 7] \<and>
   filter_trades (Some 5) (Some 10)
     (filter_trades (Some 5) (Some 10)
        [example_trade ''A'' ''BUY'' 100 (1 / 2) 3, example_trade ''A'' ''SELL'' (- 50) (3 / 5) 8])
     = [example_trade ''A'' ''SELL'' (- 50) (3 / 5) 8]"
  using window_filter_idempotent [of "Some 5" "Some 10"
      "[example_position ''A'' 50 True 20, example_position ''A'' (- 20) True 7,
        example_position ''B'' 5 False 1]"
      "[example_trade ''A'' ''BUY'' 100 (1 / 2) 3, example_trade ''A'' ''SELL'' (- 50) (3 / 5) 8]"]
  by (simp add: filter_positions_def filter_trades_def example_position_def example_trade_def)

section \<open>Open positions without a resolution date\<close>

lemma set_sort_newest_first: "set (sort_newest_first df) = set df"
  by (simp add: sort_newest_first_def)

text \<open>
  C9. With an end date before the last day of 2099, an open position whose
  \<^verbatim>\<open>endDate\<close> is missing gets the far future timestamp, and \<^verbatim>\<open>load_positions\<close> returns
  a table that does not contain it: every row of the table lies before the far future
  date.
\<close>

theorem open_position_without_end_date_filtered:
  assumes "e < far_future" and "raw \<in> set open_positions" and "api_endDate raw = None"
  shows "timestamp (process_open raw) = far_future \<and>
         (\<exists>df. load_positions closed_positions open_positions start_date (Some e) = Inr df \<and>
               process_open raw \<notin> set df \<and> (\<forall>p \<in> set df. timestamp p < far_future))"
proof -
  let ?df = "sort_newest_first (sort_newest_first (map process_closed closed_positions)
               @ sort_newest_first (map process_open open_positions))"
  have ts: "timestamp (process_open raw) = far_future"
    using assms(3) by (simp add: process_open_def)
  have ne: "open_positions \<noteq> []" using assms(2) by auto
  then have load: "load_positions closed_positions open_positions start_date (Some e)
               = Inr (filter_positions start_date (Some e) ?df)"
    by (simp add: load_positions_def Let_def)
  have "process_open raw \<in> set ?df"
    using assms(2) by (simp add: set_sort_newest_first)
  then have dfne: "?df \<noteq> []" by auto
  have bound: "\<And>p. p \<in> set (filter_positions start_date (Some e) ?df) \<Longrightarrow> timestamp p \<le> e"
    using filter_positions_end [OF dfne] by blast
  have "process_open raw \<notin> set (filter_positions start_date (Some e) ?df)"
    using bound ts assms(1) by fastforce
  moreover have "\<forall>p \<in> set (filter_positions start_date (Some e) ?df). timestamp p < far_future"
    using bound assms(1) by fastforce
  ultimately show ?thesis using ts load by blast
qed

theorem open_position_without_end_date_filtered_witness:
  "load_positions [example_api_position ''A'' 50 1700000000 None]
     [example_api_position ''B'' 5 0 None] None (Some 1800000000)
   = Inr [process_closed (example_api_position ''A'' 50 1700000000 None)]"
proof -
  have "(1800000000::int) < far_future" by (simp add: far_future_def)
  from open_position_without_end_date_filtered [OF this,
      of "example_api_position ''B'' 5 0 None" "[example_api_position ''B'' 5 0 None]"
         "[example_api_position ''A'' 50 1700000000 None]" None]
  show ?thesis
    by (simp add: load_positions_def sort_newest_first_def filter_positions_def
        process_open_def process_closed_def example_api_position_def far_future_def)
qed

section \<open>Deduplication by asset\<close>

lemma fold_max_Max: "fold max ts (t::int) = Max (set (t # ts))"
  by (rule Max.set_eq_fold [symmetric])

lemma group_of_Nil_iff: "group_of df k = [] \<longleftrightarrow> k \<notin> asset ` set df"
  by (auto simp: group_of_def filter_empty_conv)

lemma aggregate_positions_assets:
  "map g_asset (aggregate_positions df) = sort (remdups (map asset df))"
proof -
  have "\<And>ks. set ks \<subseteq> asset ` set df \<Longrightarrow>
          map g_asset (concat (map (\<lambda>k. case group_of df k of [] \<Rightarrow> [] | p # ps \<Rightarrow> [agg p ps]) ks))
            = ks"
  proof -
    fix ks show "set ks \<subseteq> asset ` set df \<Longrightarrow>
          map g_asset (concat (map (\<lambda>k. case group_of df k of [] \<Rightarrow> [] | p # ps \<Rightarrow> [agg p ps]) ks))
            = ks"
    proof (induction ks)
      case Nil
      then show ?case by simp
    next
      case (Cons k ks)
      then have "group_of df k \<noteq> []" by (simp add: group_of_Nil_iff)
      then obtain p ps where g: "group_of df k = p # ps" by (cases "group_of df k") auto
      then have "p \<in> set (group_of df k)" by simp
      then have "asset p = k" by (simp add: group_of_def)
      then show ?case using Cons g by (simp add: agg_def)
    qed
  qed
  then show ?thesis by (simp add: aggregate_positions_def)
qed

lemma aggregate_positions_row:
  assumes "r \<in> set (aggregate_positions df)"
  shows "\<exists>p ps. group_of df (g_asset r) = p # ps \<and> r = agg p ps"
proof -
  from assms obtain k where k: "k \<in> set (sort (remdups (map asset df)))"
    and r: "r \<in> set (case group_of df k of [] \<Rightarrow> [] | p # ps \<Rightarrow> [agg p ps])"
    by (auto simp: aggregate_positions_def)
  then obtain p ps where g: "group_of df k = p # ps" and ra: "r = agg p ps"
    by (cases "group_of df k") auto
  from g have "p \<in> set (group_of df k)" by simp
  then have "asset p = k" by (simp add: group_of_def)
  then have "g_asset r = k" using ra by (simp add: agg_def)
  then show ?thesis using g ra by blast
qed

text \<open>
  C2. The aggregation has exactly one row per asset id of the table; the row of an
  asset sums the \<^verbatim>\<open>realizedPnl\<close> of its rows, is closed when all of them are, carries
  their latest timestamp and the title and event slug of the first of them. Two rows
  of one asset with \<^verbatim>\<open>realizedPnl\<close> 10 and -3 become one row with 7, closed when both
  are.
\<close>

theorem aggregate_positions_by_asset:
  "distinct (map g_asset (aggregate_positions df)) \<and>
   set (map g_asset (aggregate_positions df)) = set (map asset df) \<and>
   (\<forall>r \<in> set (aggregate_positions df).
      group_of df (g_asset r) \<noteq> [] \<and>
      g_realizedPnl r = sum_list (map realizedPnl (group_of df (g_asset r))) \<and>
      g_closed r = list_all closed (group_of df (g_asset r)) \<and>
      g_timestamp r = Max (set (map timestamp (group_of df (g_asset r)))) \<and>
      g_title r = title (hd (group_of df (g_asset r))) \<and>
      g_eventSlug r = eventSlug (hd (group_of df (g_asset r)))) \<and>
   (asset p = asset q \<and> realizedPnl p = 10 \<and> realizedPnl q = - 3 \<longrightarrow>
      (\<exists>r. aggregate_positions [p, q] = [r] \<and> g_realizedPnl r = 7 \<and>
           g_closed r = (closed p \<and> closed q)))"
proof (intro conjI ballI impI)
  show "distinct (map g_asset (aggregate_positions df))"
    by (simp add: aggregate_positions_assets)
  show "set (map g_asset (aggregate_positions df)) = set (map asset df)"
    by (simp add: aggregate_positions_assets)
next
  fix r assume "r \<in> set (aggregate_positions df)"
  then obtain p0 ps where g: "group_of df (g_asset r) = p0 # ps" and r: "r = agg p0 ps"
    using aggregate_positions_row by blast
  show "group_of df (g_asset r) \<noteq> []" using g by simp
  show "g_realizedPnl r = sum_list (map realizedPnl (group_of df (g_asset r)))"
    unfolding g by (simp add: r agg_def)
  show "g_closed r = list_all closed (group_of df (g_asset r))"
    unfolding g by (simp add: r agg_def)
  show "g_timestamp r = Max (set (map timestamp (group_of df (g_asset r))))"
    unfolding g by (simp add: r agg_def fold_max_Max)
  show "g_title r = title (hd (group_of df (g_asset r)))"
    unfolding g by (simp add: r agg_def)
  show "g_eventSlug r = eventSlug (hd (group_of df (g_asset r)))"
    unfolding g by (simp add: r agg_def)
next
  assume a: "asset p = asset q \<and> realizedPnl p = 10 \<and> realizedPnl q = - 3"
  then have "aggregate_positions [p, q] = [agg p [q]]"
    by (simp add: aggregate_positions_def group_of_def)
  then show "\<exists>r. aggregate_positions [p, q] = [r] \<and> g_realizedPnl r = 7 \<and>
           g_closed r = (closed p \<and> closed q)"
    using a by (simp add: agg_def)
qed

theorem aggregate_positions_by_asset_witness:
  "aggregate_positions [example_position ''A'' 10 True 100, example_position ''A'' (- 3) False 200]
     = [\<lparr> g_title = ''Market A'', g_eventSlug = ''market-A'', g_asset = ''A'',
          g_realizedPnl = 7, g_closed = False, g_timestamp = 200 \<rparr>]"
proof -
  let ?p = "example_position ''A'' 10 True 100"
  let ?q = "example_position ''A'' (- 3) False 200"
  have h: "asset ?p = asset ?q \<and> realizedPnl ?p = 10 \<and> realizedPnl ?q = - 3"
    by (simp add: example_position_def)
  from aggregate_positions_by_asset [of "[?p, ?q]" ?p ?q] h
  obtain r where r: "aggregate_positions [?p, ?q] = [r]" "g_realizedPnl r = 7"
    by blast
  have "aggregate_positions [?p, ?q] = [agg ?p [?q]]"
    by (simp add: aggregate_positions_def group_of_def example_position_def)
  then show ?thesis using r
    by (simp add: agg_def example_position_def)
qed

section \<open>Derived ratios\<close>

lemma roi_total_capital_cases:
  "roi_total_capital api_pnl invested
     = Some (if 0 < invested then api_pnl / invested * 100 else 0)"
  by (simp add: roi_total_capital_def checked_div_def)

lemma summarise_row:
  assumes "summarise df key trades = Inr row"
  shows "total_invested row = sum_list (map t_value (filter (\<lambda>x. t_side x = ''BUY'') trades)) \<and>
         m_realizedPnl row = realizedPnl (hd (filter (\<lambda>p. asset p = t_asset (hd trades)) df)) \<and>
         m_closed row = closed (hd (filter (\<lambda>p. asset p = t_asset (hd trades)) df)) \<and>
         roi_pct row = Some (if 0 < total_invested row
                             then m_realizedPnl row / total_invested row * 100 else 0)"
proof (cases trades)
  case Nil
  then show ?thesis using assms by simp
next
  case (Cons t ts)
  show ?thesis
  proof (cases "filter (\<lambda>p. asset p = t_asset t) df")
    case Nil
    then show ?thesis using assms Cons by simp
  next
    case (Cons position_data others)
    then show ?thesis
      using assms \<open>trades = t # ts\<close>
      by (auto simp: Let_def roi_total_capital_cases)
  qed
qed

lemma summary_rows_rel:
  "summary_rows df trade_dfs = Inr rows \<Longrightarrow>
   list_all2 (\<lambda>row (key, trades).
       total_invested row = sum_list (map t_value (filter (\<lambda>x. t_side x = ''BUY'') trades)) \<and>
       m_realizedPnl row = realizedPnl (hd (filter (\<lambda>p. asset p = t_asset (hd trades)) df)) \<and>
       m_closed row = closed (hd (filter (\<lambda>p. asset p = t_asset (hd trades)) df)) \<and>
       roi_pct row = Some (if 0 < total_invested row
                           then m_realizedPnl row / total_invested row * 100 else 0) \<and>
       (total_invested row = 0 \<longrightarrow> roi_pct row = Some 0))
     rows (filter (\<lambda>(key, trades). trades \<noteq> []) trade_dfs)"
proof (induction df trade_dfs arbitrary: rows rule: summary_rows.induct)
  case (1 df)
  then show ?case by simp
next
  case (2 df key trades rest)
  show ?case
  proof (cases "trades = []")
    case True
    then show ?thesis using 2 by simp
  next
    case False
    with "2.prems" obtain r rs where r: "summarise df key trades = Inr r"
      and rs: "summary_rows df rest = Inr rs" and rows: "rows = r # rs"
      by (auto split: sum.splits)
    note row = summarise_row [OF r]
    note IH = "2.IH"(2) [OF False r rs]
    show ?thesis using False rows row IH by simp
  qed
qed

lemma mean_nonempty: "xs \<noteq> [] \<Longrightarrow> mean xs = Some (sum_list xs / real (length xs))"
  by (simp add: mean_def checked_div_def)

lemma profit_factor_of_zero:
  "n_loss = 0 \<or> a_loss = Some 0 \<Longrightarrow> profit_factor_of a_win n_win a_loss n_loss = Some 0"
  by (auto simp: profit_factor_of_def)

lemma profit_factor_of_quotient:
  "0 < n_loss \<Longrightarrow> l \<noteq> 0 \<Longrightarrow>
   profit_factor_of (Some w) n_win (Some l) n_loss = Some \<bar>w * real n_win / (l * real n_loss)\<bar>"
  by (simp add: profit_factor_of_def checked_div_def)

text \<open>
  C7. The derived ratios are always defined (no division by zero is carried out) and
  are these functions of the tables. For every entry of \<^verbatim>\<open>trade_dfs\<close> with a trade,
  \<^verbatim>\<open>total_invested\<close> is the sum of the values of its BUY trades and \<^verbatim>\<open>roi_pct\<close> is
  \<open>realizedPnl / total_invested * 100\<close>, and 0 when \<^verbatim>\<open>total_invested\<close> is 0. In the
  portfolio summary the counts are those of the closed, the closed winning and the
  closed losing rows of the summary table; \<^verbatim>\<open>overall_roi\<close> is
  \<open>total_pnl / total_invested * 100\<close>, and 0 when the invested total is 0;
  \<^verbatim>\<open>win_rate\<close> is \<open>winning / closed * 100\<close>, and 0 when there is no closed position;
  \<^verbatim>\<open>profit_factor\<close> is 0 when there is no losing position or the average loss is 0,
  and otherwise the absolute value of \<open>avg_win * win_count / (avg_loss * loss_count)\<close>.
\<close>

theorem derived_ratios_defined:
  "roi_total_capital api_pnl invested
     = Some (if 0 < invested then api_pnl / invested * 100 else 0) \<and>
   (invested = 0 \<longrightarrow> roi_total_capital api_pnl invested = Some 0) \<and>
   (df \<noteq> [] \<and> create_summary df trade_dfs = Inr rows \<longrightarrow>
      list_all2 (\<lambda>row (key, trades).
          total_invested row
            = sum_list (map t_value (filter (\<lambda>x. t_side x = ''BUY'') trades)) \<and>
          m_realizedPnl row
            = realizedPnl (hd (filter (\<lambda>p. asset p = t_asset (hd trades)) df)) \<and>
          m_closed row = closed (hd (filter (\<lambda>p. asset p = t_asset (hd trades)) df)) \<and>
          roi_pct row = Some (if 0 < total_invested row
                              then m_realizedPnl row / total_invested row * 100 else 0) \<and>
          (total_invested row = 0 \<longrightarrow> roi_pct row = Some 0))
        rows (filter (\<lambda>(key, trades). trades \<noteq> []) trade_dfs)) \<and>
   (df \<noteq> [] \<and> summary_df \<noteq> [] \<longrightarrow>
      (\<exists>p w l. portfolio_summary df summary_df = Some p \<and>
         total_pnl p = sum_list (map realizedPnl df) \<and>
         invested_total p = sum_list (map total_invested summary_df) \<and>
         closed_count p = length (filter m_closed summary_df) \<and>
         winning_count p
           = length (filter (\<lambda>r. m_closed r \<and> 0 < m_realizedPnl r) summary_df) \<and>
         losing_count p
           = length (filter (\<lambda>r. m_closed r \<and> m_realizedPnl r < 0) summary_df) \<and>
         overall_roi p = Some (if 0 < invested_total p
                               then total_pnl p / invested_total p * 100 else 0) \<and>
         win_rate p = Some (if 0 < closed_count p
                            then real (winning_count p) / real (closed_count p) * 100 else 0) \<and>
         avg_win p = Some w \<and>
         w = (if 0 < winning_count p
              then sum_list (map m_realizedPnl
                     (filter (\<lambda>r. m_closed r \<and> 0 < m_realizedPnl r) summary_df))
                   / real (winning_count p)
              else 0) \<and>
         avg_loss p = Some l \<and>
         l = (if 0 < losing_count p
              then sum_list (map m_realizedPnl
                     (filter (\<lambda>r. m_closed r \<and> m_realizedPnl r < 0) summary_df))
                   / real (losing_count p)
              else 0) \<and>
         profit_factor p
           = Some (if 0 < losing_count p \<and> l \<noteq> 0
                   then \<bar>w * real (winning_count p) / (l * real (losing_count p))\<bar> else 0) \<and>
         (invested_total p = 0 \<longrightarrow> overall_roi p = Some 0) \<and>
         (closed_count p = 0 \<longrightarrow> win_rate p = Some 0) \<and>
         (losing_count p = 0 \<or> l = 0 \<longrightarrow> profit_factor p = Some 0)))"
proof (intro conjI impI)
  show "roi_total_capital api_pnl invested
          = Some (if 0 < invested then api_pnl / invested * 100 else 0)"
    by (rule roi_total_capital_cases)
  show "roi_total_capital api_pnl invested = Some 0" if "invested = 0"
    using that by (simp add: roi_total_capital_cases)
next
  assume "df \<noteq> [] \<and> create_summary df trade_dfs = Inr rows"
  then have "summary_rows df trade_dfs = Inr rows" by (auto simp: create_summary_def)
  then show "list_all2 (\<lambda>row (key, trades).
          total_invested row
            = sum_list (map t_value (filter (\<lambda>x. t_side x = ''BUY'') trades)) \<and>
          m_realizedPnl row
            = realizedPnl (hd (filter (\<lambda>p. asset p = t_asset (hd trades)) df)) \<and>
          m_closed row = closed (hd (filter (\<lambda>p. asset p = t_asset (hd trades)) df)) \<and>
          roi_pct row = Some (if 0 < total_invested row
                              then m_realizedPnl row / total_invested row * 100 else 0) \<and>
          (total_invested row = 0 \<longrightarrow> roi_pct row = Some 0))
        rows (filter (\<lambda>(key, trades). trades \<noteq> []) trade_dfs)"
    by (rule summary_rows_rel)
next
  assume ne: "df \<noteq> [] \<and> summary_df \<noteq> []"
  define winning where "winning = filter (\<lambda>r. m_closed r \<and> 0 < m_realizedPnl r) summary_df"
  define losing where "losing = filter (\<lambda>r. m_closed r \<and> m_realizedPnl r < 0) summary_df"
  define tot_pnl where "tot_pnl = sum_list (map realizedPnl df)"
  define inv where "inv = sum_list (map total_invested summary_df)"
  define w where "w = (if 0 < length winning
       then sum_list (map m_realizedPnl winning) / real (length winning) else 0)"
  define l where "l = (if 0 < length losing
       then sum_list (map m_realizedPnl losing) / real (length losing) else 0)"
  define p where "p = \<lparr> realized_pnl = sum_list (map realizedPnl (filter closed df)),
       unrealized_pnl = sum_list (map realizedPnl (filter (\<lambda>p. \<not> closed p) df)),
       total_pnl = tot_pnl, invested_total = inv,
       overall_roi = Some (if 0 < inv then tot_pnl / inv * 100 else 0),
       closed_count = length (filter m_closed summary_df),
       winning_count = length winning, losing_count = length losing,
       win_rate = Some (if 0 < length (filter m_closed summary_df)
                        then real (length winning) / real (length (filter m_closed summary_df)) * 100
                        else 0),
       avg_win = Some w, avg_loss = Some l,
       profit_factor = Some (if 0 < length losing \<and> l \<noteq> 0
                             then \<bar>w * real (length winning) / (l * real (length losing))\<bar>
                             else 0) \<rparr>"
  have aw: "(if 0 < length winning then mean (map m_realizedPnl winning) else Some 0) = Some w"
    by (simp add: w_def mean_def checked_div_def)
  have al: "(if 0 < length losing then mean (map m_realizedPnl losing) else Some 0) = Some l"
    by (simp add: l_def mean_def checked_div_def)
  have pf: "profit_factor_of (Some w) (length winning) (Some l) (length losing)
              = Some (if 0 < length losing \<and> l \<noteq> 0
                      then \<bar>w * real (length winning) / (l * real (length losing))\<bar> else 0)"
    by (simp add: profit_factor_of_def checked_div_def)
  have ps: "portfolio_summary df summary_df = Some p"
    using ne
    unfolding portfolio_summary_def Let_def filter_filter
      winning_def [symmetric] losing_def [symmetric] tot_pnl_def [symmetric] inv_def [symmetric]
      aw al pf
    by (simp add: p_def checked_div_def)
  show "\<exists>p w l. portfolio_summary df summary_df = Some p \<and>
         total_pnl p = sum_list (map realizedPnl df) \<and>
         invested_total p = sum_list (map total_invested summary_df) \<and>
         closed_count p = length (filter m_closed summary_df) \<and>
         winning_count p
           = length (filter (\<lambda>r. m_closed r \<and> 0 < m_realizedPnl r) summary_df) \<and>
         losing_count p
           = length (filter (\<lambda>r. m_closed r \<and> m_realizedPnl r < 0) summary_df) \<and>
         overall_roi p = Some (if 0 < invested_total p
                               then total_pnl p / invested_total p * 100 else 0) \<and>
         win_rate p = Some (if 0 < closed_count p
                            then real (winning_count p) / real (closed_count p) * 100 else 0) \<and>
         avg_win p = Some w \<and>
         w = (if 0 < winning_count p
              then sum_list (map m_realizedPnl
                     (filter (\<lambda>r. m_closed r \<and> 0 < m_realizedPnl r) summary_df))
                   / real (winning_count p)
              else 0) \<and>
         avg_loss p = Some l \<and>
         l = (if 0 < losing_count p
              then sum_list (map m_realizedPnl
                     (filter (\<lambda>r. m_closed r \<and> m_realizedPnl r < 0) summary_df))
                   / real (losing_count p)
              else 0) \<and>
         profit_factor p
           = Some (if 0 < losing_count p \<and> l \<noteq> 0
                   then \<bar>w * real (winning_count p) / (l * real (losing_count p))\<bar> else 0) \<and>
         (invested_total p = 0 \<longrightarrow> overall_roi p = Some 0) \<and>
         (closed_count p = 0 \<longrightarrow> win_rate p = Some 0) \<and>
         (losing_count p = 0 \<or> l = 0 \<longrightarrow> profit_factor p = Some 0)"
    apply (rule exI [of _ p], rule exI [of _ w], rule exI [of _ l])
    apply (intro conjI)
                   apply (rule ps)
                  apply (simp_all add: p_def tot_pnl_def inv_def winning_def losing_def w_def l_def)
    done
qed

theorem derived_ratios_defined_witness:
  "(\<exists>rows p.
      create_summary [example_position ''B'' 5 False 300]
        [(1, [example_trade ''B'' ''SELL'' (- 50) (3 / 5) 8])] = Inr rows \<and>
      portfolio_summary [example_position ''B'' 5 False 300] rows = Some p \<and>
      map total_invested rows = [0] \<and> map roi_pct rows = [Some 0] \<and>
      invested_total p = 0 \<and> overall_roi p = Some 0 \<and>
      closed_count p = 0 \<and> win_rate p = Some 0 \<and>
      losing_count p = 0 \<and> profit_factor p = Some 0) \<and>
   (\<exists>rows p.
      create_summary [example_position ''A'' 30 True 100, example_position ''C'' (- 10) True 200]
        [(1, [example_trade ''A'' ''BUY'' 100 (1 / 2) 3]),
         (2, [example_trade ''C'' ''BUY'' 40 (1 / 2) 4])] = Inr rows \<and>
      portfolio_summary
        [example_position ''A'' 30 True 100, example_position ''C'' (- 10) True 200] rows = Some p \<and>
      map roi_pct rows = [Some 60, Some (- 50)] \<and>
      overall_roi p = Some (200 / 7) \<and> win_rate p = Some 50 \<and>
      avg_win p = Some 30 \<and> avg_loss p = Some (- 10) \<and>
      winning_count p = 1 \<and> losing_count p = 1 \<and> profit_factor p = Some 3)"
proof (intro conjI)
  let ?df = "[example_position ''B'' 5 False 300]"
  let ?tdfs = "[(1::nat, [example_trade ''B'' ''SELL'' (- 50) (3 / 5) 8])]"
  obtain r where cs: "create_summary ?df ?tdfs = Inr [r]"
    by (simp add: create_summary_def example_position_def example_trade_def)
  from derived_ratios_defined [of 0 0 ?df ?tdfs "[r]" "[r]"] cs
  have r: "total_invested r = 0" "m_realizedPnl r = 5" "\<not> m_closed r" "roi_pct r = Some 0"
    by (simp_all add: example_position_def example_trade_def)
  from derived_ratios_defined [of 0 0 ?df ?tdfs "[r]" "[r]"]
  obtain p where "portfolio_summary ?df [r] = Some p" "invested_total p = 0"
    "overall_roi p = Some 0" "closed_count p = 0" "win_rate p = Some 0"
    "losing_count p = 0" "profit_factor p = Some 0"
    using r by auto
  then show "\<exists>rows p. create_summary ?df ?tdfs = Inr rows \<and>
      portfolio_summary ?df rows = Some p \<and>
      map total_invested rows = [0] \<and> map roi_pct rows = [Some 0] \<and>
      invested_total p = 0 \<and> overall_roi p = Some 0 \<and>
      closed_count p = 0 \<and> win_rate p = Some 0 \<and>
      losing_count p = 0 \<and> profit_factor p = Some 0"
    using cs r by auto
next
  let ?df = "[example_position ''A'' 30 True 100, example_position ''C'' (- 10) True 200]"
  let ?tdfs = "[(1::nat, [example_trade ''A'' ''BUY'' 100 (1 / 2) 3]),
                (2, [example_trade ''C'' ''BUY'' 40 (1 / 2) 4])]"
  obtain a c where cs: "create_summary ?df ?tdfs = Inr [a, c]"
    by (simp add: create_summary_def example_position_def example_trade_def)
  from derived_ratios_defined [of 0 0 ?df ?tdfs "[a, c]" "[a, c]"] cs
  have a: "total_invested a = 50" "m_realizedPnl a = 30" "m_closed a" "roi_pct a = Some 60"
    and c: "total_invested c = 20" "m_realizedPnl c = - 10" "m_closed c" "roi_pct c = Some (- 50)"
    by (simp_all add: example_position_def example_trade_def)
  from derived_ratios_defined [of 0 0 ?df ?tdfs "[a, c]" "[a, c]"]
  obtain p where "portfolio_summary ?df [a, c] = Some p"
    "overall_roi p = Some (200 / 7)" "win_rate p = Some 50"
    "avg_win p = Some 30" "avg_loss p = Some (- 10)"
    "winning_count p = 1" "losing_count p = 1" "profit_factor p = Some 3"
    using a c by (auto simp: example_position_def)
  then show "\<exists>rows p. create_summary ?df ?tdfs = Inr rows \<and>
      portfolio_summary ?df rows = Some p \<and>
      map roi_pct rows = [Some 60, Some (- 50)] \<and>
      overall_roi p = Some (200 / 7) \<and> win_rate p = Some 50 \<and>
      avg_win p = Some 30 \<and> avg_loss p = Some (- 10) \<and>
      winning_count p = 1 \<and> losing_count p = 1 \<and> profit_factor p = Some 3"
    using cs a c by auto
qed

section \<open>The snapshot collector\<close>











subsection \<open>The example endpoint\<close>




subsection \<open>Retries and the quality gate\<close>



subsection \<open>The store is written before the gate\<close>



section \<open>Properties of the position pagination\<close>

subsection \<open>One iteration of the open-position loop\<close>

lemma positions_loop_429:
  "api n 500 offset = Inl (HTTPError 429) \<Longrightarrow>
   positions_loop api delay offset all_positions n trace
     = positions_loop api delay offset all_positions (Suc n) (trace @ [Request 500 offset, Sleep 5])"
  by (subst positions_loop.simps) simp

lemma positions_loop_error:
  "api n 500 offset = Inl e \<Longrightarrow> e \<noteq> HTTPError 429 \<Longrightarrow>
   positions_loop api delay offset all_positions n trace = Some (trace @ [Request 500 offset], Inl e)"
  by (subst positions_loop.simps) simp

lemma positions_loop_empty:
  "api n 500 offset = Inr [] \<Longrightarrow>
   positions_loop api delay offset all_positions n trace
     = Some (trace @ [Request 500 offset], Inr all_positions)"
  by (subst positions_loop.simps) simp

lemma positions_loop_short:
  "api n 500 offset = Inr batch \<Longrightarrow> batch \<noteq> [] \<Longrightarrow> length batch < 500 \<Longrightarrow>
   positions_loop api delay offset all_positions n trace
     = Some (trace @ [Request 500 offset], Inr (all_positions @ batch))"
  by (subst positions_loop.simps) simp

lemma positions_loop_next:
  "api n 500 offset = Inr batch \<Longrightarrow> \<not> length batch < 500 \<Longrightarrow>
   positions_loop api delay offset all_positions n trace
     = positions_loop api delay (offset + 500) (all_positions @ batch) (Suc n)
         (trace @ [Request 500 offset, Sleep delay])"
  by (subst positions_loop.simps) auto

lemma positions_loop_always_429:
  "positions_loop (\<lambda>n lm off. Inl (HTTPError 429)) delay offset all_positions n trace = None"
proof (cases "positions_loop (\<lambda>n lm off. Inl (HTTPError 429)) delay offset all_positions n trace")
  case None
  then show ?thesis .
next
  case (Some y)
  have "(\<lambda>n lm off. Inl (HTTPError 429)) \<noteq> (\<lambda>(n::nat) (lm::nat) (off::nat). (Inl (HTTPError 429) :: 'a response))"
  proof (rule positions_loop.raw_induct
      [where P = "\<lambda>api delay offset all_positions n trace y.
                    api \<noteq> (\<lambda>n lm off. Inl (HTTPError 429))", OF _ Some])
    fix f :: "'a page_server \<Rightarrow> real \<Rightarrow> nat \<Rightarrow> 'a list \<Rightarrow> nat \<Rightarrow> event list
               \<Rightarrow> (event list \<times> (http_error + 'a list)) option"
      and api :: "'a page_server" and delay offset all_positions n trace y
    assume IH: "\<And>api delay offset all_positions n trace y.
        f api delay offset all_positions n trace = Some y \<Longrightarrow>
        api \<noteq> (\<lambda>n lm off. Inl (HTTPError 429))"
    assume body: "(case api n 500 offset of
        Inl e \<Rightarrow>
          if e = HTTPError 429 then
            f api delay offset all_positions (Suc n) (trace @ [Request 500 offset, Sleep 5])
          else Some (trace @ [Request 500 offset], Inl e)
      | Inr batch \<Rightarrow>
          if batch = [] then Some (trace @ [Request 500 offset], Inr all_positions)
          else if length batch < 500 then
            Some (trace @ [Request 500 offset], Inr (all_positions @ batch))
          else
            f api delay (offset + 500) (all_positions @ batch) (Suc n)
              (trace @ [Request 500 offset, Sleep delay])) = Some y"
    show "api \<noteq> (\<lambda>n lm off. Inl (HTTPError 429))"
    proof
      assume a: "api = (\<lambda>n lm off. Inl (HTTPError 429))"
      with body have "f api delay offset all_positions (Suc n)
              (trace @ [Request 500 offset, Sleep 5]) = Some y" by simp
      from IH [OF this] a show False by simp
    qed
  qed
  then show ?thesis by simp
qed

subsection \<open>The open-position loop against known data and under throttling\<close>

lemma map_upt_shift:
  "map f [0..<Suc k] = f 0 # map (\<lambda>i. f (Suc i)) [0..<k]"
proof -
  have "[0..<Suc k] = 0 # map Suc [0..<k]"
    by (simp add: upt_conv_Cons map_Suc_upt del: upt_Suc)
  then show ?thesis by (simp add: comp_def del: upt_Suc)
qed

lemma positions_loop_mock:
  assumes "\<And>m off. n \<le> m \<Longrightarrow> api m 500 off = Inr (take 500 (drop off data))"
  shows "\<exists>tr. positions_loop api delay offset all_positions n trace
                 = Some (trace @ tr, Inr (all_positions @ drop offset data)) \<and>
              requested_offsets tr
                 = map (\<lambda>i. offset + 500 * i) [0..<Suc ((length data - offset) div 500)] \<and>
              warnings tr = []"
  using assms
proof (induction "length data - offset" arbitrary: offset all_positions n trace rule: less_induct)
  case less
  let ?batch = "take 500 (drop offset data)"
  let ?N = "length data"
  have api: "api n 500 offset = Inr ?batch" using less.prems by simp
  consider (empty) "?N \<le> offset" | (short) "offset < ?N" "?N - offset < 500"
    | (full) "500 \<le> ?N - offset" by linarith
  then show ?case
  proof cases
    case empty
    then have "positions_loop api delay offset all_positions n trace
                 = Some (trace @ [Request 500 offset], Inr (all_positions @ drop offset data))"
      using positions_loop_empty [of api n offset delay all_positions trace] api by simp
    then show ?thesis using empty by simp
  next
    case short
    then have b: "?batch = drop offset data" "?batch \<noteq> []" "length ?batch < 500" by simp_all
    have "positions_loop api delay offset all_positions n trace
                 = Some (trace @ [Request 500 offset], Inr (all_positions @ drop offset data))"
      using positions_loop_short [of api n offset ?batch delay all_positions trace] api b
      by simp
    then show ?thesis using short by simp
  next
    case full
    then have nl: "\<not> length ?batch < 500" by simp
    have step: "positions_loop api delay offset all_positions n trace
       = positions_loop api delay (offset + 500) (all_positions @ ?batch) (Suc n)
           (trace @ [Request 500 offset, Sleep delay])"
      using positions_loop_next [of api n offset ?batch delay all_positions trace] api nl by simp
    have "?N - (offset + 500) < ?N - offset" using full by simp
    from less.hyps [OF this, of "Suc n" "all_positions @ ?batch"
        "trace @ [Request 500 offset, Sleep delay]"] less.prems
    obtain tr where tr: "positions_loop api delay (offset + 500) (all_positions @ ?batch) (Suc n)
           (trace @ [Request 500 offset, Sleep delay])
         = Some ((trace @ [Request 500 offset, Sleep delay]) @ tr,
                 Inr ((all_positions @ ?batch) @ drop (offset + 500) data))"
      and ro: "requested_offsets tr
         = map (\<lambda>i. offset + 500 + 500 * i) [0..<Suc ((?N - (offset + 500)) div 500)]"
      and w: "warnings tr = []"
      by auto
    have "?batch @ drop (offset + 500) data = drop offset data"
      using append_take_drop_id [of 500 "drop offset data"] by (simp add: add.commute)
    then have data: "(all_positions @ ?batch) @ drop (offset + 500) data
                       = all_positions @ drop offset data" by simp
    have dv: "(?N - offset) div 500 = Suc ((?N - (offset + 500)) div 500)"
      using le_div_geq [of 500 "?N - offset"] full by simp
    have "map (\<lambda>i. offset + 500 * i) [0..<Suc ((?N - offset) div 500)]
            = offset # map (\<lambda>i. offset + 500 + 500 * i) [0..<Suc ((?N - (offset + 500)) div 500)]"
      unfolding dv by (subst map_upt_shift) simp
    then have "requested_offsets ([Request 500 offset, Sleep delay] @ tr)
            = map (\<lambda>i. offset + 500 * i) [0..<Suc ((?N - offset) div 500)]"
      using ro by simp
    moreover have "warnings ([Request 500 offset, Sleep delay] @ tr) = []" using w by simp
    moreover have "positions_loop api delay offset all_positions n trace
            = Some (trace @ ([Request 500 offset, Sleep delay] @ tr),
                    Inr (all_positions @ drop offset data))"
      using step tr data by simp
    ultimately show ?thesis by blast
  qed
qed

lemma positions_loop_throttled:
  assumes "n \<le> k"
  shows "positions_loop (throttled k api) delay offset all_positions n trace
           = positions_loop (throttled k api) delay offset all_positions k
               (trace @ concat (replicate (k - n) [Request 500 offset, Sleep 5]))"
  using assms
proof (induction "k - n" arbitrary: n trace)
  case 0
  then show ?case by simp
next
  case (Suc d)
  then have nk: "n < k" by simp
  then have "throttled k api n 500 offset = Inl (HTTPError 429)" by (simp add: throttled_def)
  then have "positions_loop (throttled k api) delay offset all_positions n trace
        = positions_loop (throttled k api) delay offset all_positions (Suc n)
            (trace @ [Request 500 offset, Sleep 5])"
    by (rule positions_loop_429)
  also have "\<dots> = positions_loop (throttled k api) delay offset all_positions k
        ((trace @ [Request 500 offset, Sleep 5])
           @ concat (replicate (k - Suc n) [Request 500 offset, Sleep 5]))"
    using Suc.hyps(2) nk by (intro Suc.hyps(1)) simp_all
  also have "(trace @ [Request 500 offset, Sleep 5])
           @ concat (replicate (k - Suc n) [Request 500 offset, Sleep 5])
        = trace @ concat (replicate (k - n) [Request 500 offset, Sleep 5])"
  proof -
    have "k - n = Suc (k - Suc n)" using nk by simp
    then show ?thesis by simp
  qed
  finally show ?case .
qed

lemma get_all_user_positions_throttled_mock:
  "\<exists>tr. get_all_user_positions (throttled k (mock_endpoint data)) delay
            = Some (concat (replicate k [Request 500 0, Sleep 5]) @ tr, Inr data) \<and>
         requested_offsets tr = map (\<lambda>i. 500 * i) [0..<Suc (length data div 500)] \<and>
         warnings tr = []"
proof -
  have api: "\<And>m off. k \<le> m \<Longrightarrow>
               throttled k (mock_endpoint data) m 500 off = Inr (take 500 (drop off data))"
    by (simp add: throttled_def mock_endpoint_def)
  from positions_loop_mock [of k "throttled k (mock_endpoint data)" data delay 0 "[]"
      "concat (replicate k [Request 500 0, Sleep 5])", OF api]
  show ?thesis
    unfolding get_all_user_positions_def
    using positions_loop_throttled [of 0 k "mock_endpoint data" delay 0 "[]" "[]"]
    by simp
qed

subsection \<open>The closed-position loop\<close>

lemma given_None: "\<not> given None"
  by (simp add: given_def)

lemma closed_positions_loop_429:
  "api n 25 offset = Inl (HTTPError 429) \<Longrightarrow>
   closed_positions_loop api s e delay offset all_positions old n trace
     = closed_positions_loop api s e delay offset all_positions old (Suc n)
         (trace @ [Request 25 offset, Sleep 5])"
  by (subst closed_positions_loop.simps) simp

lemma closed_positions_loop_error:
  "api n 25 offset = Inl err \<Longrightarrow> err \<noteq> HTTPError 429 \<Longrightarrow>
   closed_positions_loop api s e delay offset all_positions old n trace
     = Some (trace @ [Request 25 offset], Inl err)"
  by (subst closed_positions_loop.simps) simp

lemma closed_positions_loop_empty:
  "api n 25 offset = Inr [] \<Longrightarrow>
   closed_positions_loop api s e delay offset all_positions old n trace
     = Some (trace @ [Request 25 offset], Inr all_positions)"
  by (subst closed_positions_loop.simps) simp

lemma closed_positions_loop_short:
  "api n 25 offset = Inr batch \<Longrightarrow> batch \<noteq> [] \<Longrightarrow> length batch < 25 \<Longrightarrow>
   closed_positions_loop api s e delay offset all_positions old n trace
     = Some (trace @ [Request 25 offset], Inr (all_positions @ batch))"
  by (subst closed_positions_loop.simps) simp

lemma closed_positions_loop_next:
  "api n 25 offset = Inr batch \<Longrightarrow> \<not> length batch < 25 \<Longrightarrow>
   closed_positions_loop api None None delay offset all_positions old n trace
     = closed_positions_loop api None None delay (offset + 25) (all_positions @ batch) old (Suc n)
         (trace @ [Request 25 offset, Sleep delay])"
  by (subst closed_positions_loop.simps) (auto simp: given_None)

lemma closed_positions_loop_mock:
  assumes "\<And>m off. n \<le> m \<Longrightarrow> api m 25 off = Inr (take 25 (drop off data))"
  shows "\<exists>tr. closed_positions_loop api None None delay offset all_positions old n trace
                 = Some (trace @ tr, Inr (all_positions @ drop offset data)) \<and>
              requested_offsets tr
                 = map (\<lambda>i. offset + 25 * i) [0..<Suc ((length data - offset) div 25)] \<and>
              warnings tr = []"
  using assms
proof (induction "length data - offset" arbitrary: offset all_positions n trace rule: less_induct)
  case less
  let ?batch = "take 25 (drop offset data)"
  let ?N = "length data"
  have api: "api n 25 offset = Inr ?batch" using less.prems by simp
  consider (empty) "?N \<le> offset" | (short) "offset < ?N" "?N - offset < 25"
    | (full) "25 \<le> ?N - offset" by linarith
  then show ?case
  proof cases
    case empty
    then have "closed_positions_loop api None None delay offset all_positions old n trace
                 = Some (trace @ [Request 25 offset], Inr (all_positions @ drop offset data))"
      using closed_positions_loop_empty [of api n offset None None delay all_positions old trace]
        api by simp
    then show ?thesis using empty by simp
  next
    case short
    then have b: "?batch = drop offset data" "?batch \<noteq> []" "length ?batch < 25" by simp_all
    have "closed_positions_loop api None None delay offset all_positions old n trace
                 = Some (trace @ [Request 25 offset], Inr (all_positions @ drop offset data))"
      using closed_positions_loop_short
        [of api n offset ?batch None None delay all_positions old trace] api b
      by simp
    then show ?thesis using short by simp
  next
    case full
    then have nl: "\<not> length ?batch < 25" by simp
    have step: "closed_positions_loop api None None delay offset all_positions old n trace
       = closed_positions_loop api None None delay (offset + 25) (all_positions @ ?batch) old
           (Suc n) (trace @ [Request 25 offset, Sleep delay])"
      using closed_positions_loop_next [of api n offset ?batch delay all_positions old trace]
        api nl by simp
    have "?N - (offset + 25) < ?N - offset" using full by simp
    from less.hyps [OF this, of "Suc n" "all_positions @ ?batch"
        "trace @ [Request 25 offset, Sleep delay]"] less.prems
    obtain tr where tr: "closed_positions_loop api None None delay (offset + 25)
           (all_positions @ ?batch) old (Suc n) (trace @ [Request 25 offset, Sleep delay])
         = Some ((trace @ [Request 25 offset, Sleep delay]) @ tr,
                 Inr ((all_positions @ ?batch) @ drop (offset + 25) data))"
      and ro: "requested_offsets tr
         = map (\<lambda>i. offset + 25 + 25 * i) [0..<Suc ((?N - (offset + 25)) div 25)]"
      and w: "warnings tr = []"
      by auto
    have "?batch @ drop (offset + 25) data = drop offset data"
      using append_take_drop_id [of 25 "drop offset data"] by (simp add: add.commute)
    then have data: "(all_positions @ ?batch) @ drop (offset + 25) data
                       = all_positions @ drop offset data" by simp
    have dv: "(?N - offset) div 25 = Suc ((?N - (offset + 25)) div 25)"
      using le_div_geq [of 25 "?N - offset"] full by simp
    have "map (\<lambda>i. offset + 25 * i) [0..<Suc ((?N - offset) div 25)]
            = offset # map (\<lambda>i. offset + 25 + 25 * i) [0..<Suc ((?N - (offset + 25)) div 25)]"
      unfolding dv by (subst map_upt_shift) simp
    then have "requested_offsets ([Request 25 offset, Sleep delay] @ tr)
            = map (\<lambda>i. offset + 25 * i) [0..<Suc ((?N - offset) div 25)]"
      using ro by simp
    moreover have "warnings ([Request 25 offset, Sleep delay] @ tr) = []" using w by simp
    moreover have "closed_positions_loop api None None delay offset all_positions old n trace
            = Some (trace @ ([Request 25 offset, Sleep delay] @ tr),
                    Inr (all_positions @ drop offset data))"
      using step tr data by simp
    ultimately show ?thesis by blast
  qed
qed

section \<open>Rate limiting\<close>

text \<open>
  C4 claims that every pagination loop, the trade loop included, answers HTTP 429 with
  a pause of 5 seconds and the same request again. The two position loops do
  (\<open>positions_loop_429\<close>, \<open>closed_positions_loop_429\<close>, any number of times:
  \<open>get_all_user_positions_throttled_mock\<close>, and for ever under an endpoint that never
  stops throttling: \<open>positions_loop_always_429\<close>); every other HTTP error ends them
  (\<open>positions_loop_error\<close>). The trade loop catches nothing (\<open>trades_loop_error\<close>).
  The code at an endpoint that throttles the first request and then serves three
  records: the trade fetch raises after one request, the position fetches pause and
  ask again.
\<close>

theorem rate_limit_retry_of_the_three_loops:
  "get_all_user_trades (throttled 1 (mock_endpoint [1, 2, 3 :: nat])) None (1 / 10)
     = ([Request 500 0], Inl (HTTPError 429)) \<and>
   get_all_user_positions (throttled 1 (mock_endpoint [1, 2, 3 :: nat])) (1 / 2)
     = Some ([Request 500 0, Sleep 5, Request 500 0], Inr [1, 2, 3]) \<and>
   get_all_closed_positions
       (throttled 1 (mock_endpoint [example_api_position ''A'' 50 1700000000 None])) None None (1 / 2)
     = Some ([Request 25 0, Sleep 5, Request 25 0],
             Inr [example_api_position ''A'' 50 1700000000 None])"
proof (intro conjI)
  show "get_all_user_trades (throttled 1 (mock_endpoint [1, 2, 3 :: nat])) None (1 / 10)
     = ([Request 500 0], Inl (HTTPError 429))"
    unfolding get_all_user_trades_def
    using trades_loop_error [of "throttled 1 (mock_endpoint [1, 2, 3 :: nat])" 0 0 "HTTPError 429"
        None "1 / 10" "[]" "[]"]
    by (simp add: throttled_def)
next
  let ?api = "throttled 1 (mock_endpoint [1, 2, 3 :: nat])"
  have "positions_loop ?api (1 / 2) 0 [] 0 []
          = positions_loop ?api (1 / 2) 0 [] (Suc 0) ([] @ [Request 500 0, Sleep 5])"
    by (rule positions_loop_429) (simp add: throttled_def)
  also have "\<dots> = Some (([] @ [Request 500 0, Sleep 5]) @ [Request 500 0], Inr ([] @ [1, 2, 3]))"
    by (rule positions_loop_short) (simp_all add: throttled_def mock_endpoint_def)
  finally show "get_all_user_positions ?api (1 / 2)
     = Some ([Request 500 0, Sleep 5, Request 500 0], Inr [1, 2, 3])"
    by (simp add: get_all_user_positions_def)
next
  let ?p = "example_api_position ''A'' 50 1700000000 None"
  let ?api = "throttled 1 (mock_endpoint [?p])"
  have "closed_positions_loop ?api None None (1 / 2) 0 [] 0 0 []
          = closed_positions_loop ?api None None (1 / 2) 0 [] 0 (Suc 0)
              ([] @ [Request 25 0, Sleep 5])"
    by (rule closed_positions_loop_429) (simp add: throttled_def)
  also have "\<dots> = Some (([] @ [Request 25 0, Sleep 5]) @ [Request 25 0], Inr ([] @ [?p]))"
    by (rule closed_positions_loop_short) (simp_all add: throttled_def mock_endpoint_def)
  finally show "get_all_closed_positions ?api None None (1 / 2)
     = Some ([Request 25 0, Sleep 5, Request 25 0], Inr [?p])"
    by (simp add: get_all_closed_positions_def given_None)
qed

section \<open>The pagination limit\<close>

lemma trades_loop_mock_warnings:
  assumes "offset = 500 * k" "k < 20" "offset \<le> length data"
  shows "warnings (fst (trades_loop (mock_endpoint data) None d offset all_trades n trace))
         = warnings trace @ (if 10000 \<le> length data then [10000] else [])"
  using assms
proof (induction "mock_endpoint data" "None :: int option" d offset all_trades n trace
       arbitrary: k rule: trades_loop.induct)
  case (1 d offset all_trades n trace)
  let ?batch = "take 500 (drop offset data)"
  let ?N = "length data"
  have api: "mock_endpoint data n 500 offset = Inr ?batch" by (simp add: mock_endpoint_def)
  note nl = limit_reached_None
  show ?case
  proof (cases "length ?batch < 500")
    case True
    then have "?N < 10000" using "1.prems" by simp
    then show ?thesis
      using trades_loop_short [where api = "mock_endpoint data", OF api True]
      by (simp add: warnings_append)
  next
    case False
    then have full: "500 * (k + 1) \<le> ?N" using "1.prems" by simp
    show ?thesis
    proof (cases "10000 \<le> offset + 500")
      case True
      then have "k = 19" using "1.prems" by simp
      then have "10000 \<le> ?N" "offset + 500 = 10000" using full "1.prems" by simp_all
      then show ?thesis
        using trades_loop_cap [where api = "mock_endpoint data", OF api False nl True]
        by (simp add: warnings_append)
    next
      case c: False
      then have k: "k + 1 < 20" using "1.prems" by simp
      have "warnings (fst (trades_loop (mock_endpoint data) None d (offset + 500)
              (all_trades @ ?batch) (Suc n) (trace @ [Request 500 offset, Sleep d])))
            = warnings (trace @ [Request 500 offset, Sleep d])
              @ (if 10000 \<le> ?N then [10000] else [])"
        using "1.prems" k full by (intro "1.hyps" [OF api False nl c, of "k + 1"]) simp_all
      then show ?thesis
        using trades_loop_next [where api = "mock_endpoint data", OF api False nl c]
        by (simp add: warnings_append)
    qed
  qed
qed

text \<open>
  C5 claims that every pagination loop stops, with a warning, when the next offset
  would pass the API maximum of 10000. The trade loop does; the position loops have no
  such test. The code at 10600 open positions, at 10050 closed positions and at 10600
  trades: the position fetches go on to request the offsets from 10000 on and give no
  warning, the trade fetch stops after the page at offset 9500 and warns.
\<close>

theorem pagination_limit_of_the_three_loops:
  "(\<exists>tr. get_all_user_positions (mock_endpoint [0..<10600]) (1 / 2) = Some (tr, Inr [0..<10600]) \<and>
         requested_offsets tr = map (\<lambda>i. 500 * i) [0..<22] \<and> warnings tr = []) \<and>
   (\<exists>tr. get_all_closed_positions
           (mock_endpoint (replicate 10050 (example_api_position ''A'' 50 1700000000 None)))
           None None (1 / 2)
         = Some (tr, Inr (replicate 10050 (example_api_position ''A'' 50 1700000000 None))) \<and>
         requested_offsets tr = map (\<lambda>i. 25 * i) [0..<403] \<and> warnings tr = []) \<and>
   requested_offsets (fst (get_all_user_trades (mock_endpoint [0..<10600]) None (1 / 10)))
     = map (\<lambda>i. 500 * i) [0..<20] \<and>
   warnings (fst (get_all_user_trades (mock_endpoint [0..<10600]) None (1 / 10))) = [10000] \<and>
   snd (get_all_user_trades (mock_endpoint [0..<10600]) None (1 / 10)) = Inr [0..<10000]"
proof (intro conjI)
  have api: "\<And>m off. 0 \<le> m \<Longrightarrow>
      mock_endpoint [0..<10600] m 500 off = Inr (take 500 (drop off [0..<10600]))"
    by (simp add: mock_endpoint_def)
  from positions_loop_mock [of 0 "mock_endpoint [0..<10600]" "[0..<10600]" "1 / 2" 0 "[]" "[]",
      OF api]
  show "\<exists>tr. get_all_user_positions (mock_endpoint [0..<10600]) (1 / 2)
            = Some (tr, Inr [0..<10600]) \<and>
         requested_offsets tr = map (\<lambda>i. 500 * i) [0..<22] \<and> warnings tr = []"
    unfolding get_all_user_positions_def by simp
next
  let ?data = "replicate 10050 (example_api_position ''A'' 50 1700000000 None)"
  have api: "\<And>m off. 0 \<le> m \<Longrightarrow> mock_endpoint ?data m 25 off = Inr (take 25 (drop off ?data))"
    by (simp add: mock_endpoint_def)
  from closed_positions_loop_mock [of 0 "mock_endpoint ?data" ?data "1 / 2" 0 "[]" 0 "[]", OF api]
  obtain tr where tr: "closed_positions_loop (mock_endpoint ?data) None None (1 / 2) 0 [] 0 0 []
                         = Some (tr, Inr ?data)"
    and ro: "requested_offsets tr = map (\<lambda>i. 25 * i) [0..<403]" and w: "warnings tr = []"
    by auto
  have "get_all_closed_positions (mock_endpoint ?data) None None (1 / 2) = Some (tr, Inr ?data)"
    unfolding get_all_closed_positions_def tr by (simp add: given_None)
  then show "\<exists>tr. get_all_closed_positions (mock_endpoint ?data) None None (1 / 2)
                  = Some (tr, Inr ?data) \<and>
         requested_offsets tr = map (\<lambda>i. 25 * i) [0..<403] \<and> warnings tr = []"
    using ro w by blast
next
  show "requested_offsets (fst (get_all_user_trades (mock_endpoint [0..<10600]) None (1 / 10)))
     = map (\<lambda>i. 500 * i) [0..<20]"
    unfolding get_all_user_trades_def
    using trades_loop_mock_requests [of 0 0 "[0..<10600]" "1 / 10" "[]" 0 "[]"] by simp
next
  show "warnings (fst (get_all_user_trades (mock_endpoint [0..<10600]) None (1 / 10))) = [10000]"
    unfolding get_all_user_trades_def
    using trades_loop_mock_warnings [of 0 0 "[0..<10600]" "1 / 10" "[]" 0 "[]"] by simp
next
  show "snd (get_all_user_trades (mock_endpoint [0..<10600]) None (1 / 10)) = Inr [0..<10000]"
    unfolding get_all_user_trades_def
    using trades_loop_mock_result [of 0 "[0..<10600]" None "[]" "1 / 10" 0 "[]"] by simp
qed

end
